theory Spec2Isabelle
  imports Complex_Main
begin

section \<open>Python values: errors, dictionaries, numbers\<close>

text \<open>
  Every exception the modelled code can raise is a value of \<open>error\<close>; a call that may
  raise returns \<open>error + 'a\<close>, with \<open>Inl\<close> the exception.
\<close>

datatype error = KeyError | ValueError | TypeError

definition and_then :: "error + 'a \<Rightarrow> ('a \<Rightarrow> error + 'b) \<Rightarrow> error + 'b" where
  "and_then r f = (case r of Inl e \<Rightarrow> Inl e | Inr x \<Rightarrow> f x)"

fun traverse :: "('a \<Rightarrow> error + 'b) \<Rightarrow> 'a list \<Rightarrow> error + 'b list" where
  "traverse f [] = Inr []"
| "traverse f (x # xs) =
     (case f x of Inl e \<Rightarrow> Inl e
      | Inr y \<Rightarrow> (case traverse f xs of Inl e \<Rightarrow> Inl e | Inr ys \<Rightarrow> Inr (y # ys)))"

text \<open>
  A Python \<open>dict\<close> keyed by car model is an association list in insertion order
  (the order in which \<open>for car in d\<close> enumerates it). Python keeps its keys unique.
\<close>

type_synonym car = string
type_synonym 'v dict = "(car \<times> 'v) list"

definition dict_keys :: "'v dict \<Rightarrow> car list" where
  "dict_keys d = map fst d"

definition dict_values :: "'v dict \<Rightarrow> 'v list" where
  "dict_values d = map snd d"

definition dict_getitem :: "'v dict \<Rightarrow> car \<Rightarrow> error + 'v" where
  \<comment> \<open>\<open>d[k]\<close>: raises KeyError when the key is missing\<close>
  "dict_getitem d k = (case map_of d k of None \<Rightarrow> Inl KeyError | Some v \<Rightarrow> Inr v)"

definition dict_get :: "'v dict \<Rightarrow> car \<Rightarrow> 'v \<Rightarrow> 'v" where
  \<comment> \<open>\<open>d.get(k, default)\<close>\<close>
  "dict_get d k dflt = (case map_of d k of None \<Rightarrow> dflt | Some v \<Rightarrow> v)"

fun dict_set :: "'v dict \<Rightarrow> car \<Rightarrow> 'v \<Rightarrow> 'v dict" where
  \<comment> \<open>\<open>d[k] = v\<close>: overwrites in place, or appends a new key at the end\<close>
  "dict_set [] k v = [(k, v)]"
| "dict_set ((k', v') # d) k v =
     (if k' = k then (k, v) # d else (k', v') # dict_set d k v)"

definition py_round :: "real \<Rightarrow> int" where
  \<comment> \<open>\<open>round(x)\<close> on a float: to the nearest integer, ties to the even one\<close>
  "py_round x =
     (let f = \<lfloor>x\<rfloor>; r = x - of_int f
      in if r < 1 / 2 then f else if 1 / 2 < r then f + 1
         else if even f then f else f + 1)"

definition py_int :: "real \<Rightarrow> int" where
  \<comment> \<open>\<open>int(x)\<close>: truncation toward zero\<close>
  "py_int x = (if 0 \<le> x then \<lfloor>x\<rfloor> else \<lceil>x\<rceil>)"

section \<open>State, Decision, exogenous information, the model object\<close>

text \<open>
  \<open>State\<close> and \<open>Decision\<close> are the named tuples of CarDealerModel.py. Inventory
  counts and holding times are Python integers; prices, demand and forecasts are
  floats, taken here as reals. A restock quantity is whatever number the policy
  produced (an integer for the threshold policy, a float for the forecast-adaptive
  one), so the decision is parametric in it.
\<close>

record State =
  inventory_level :: "int dict"
  holding_time :: "int dict"
  competitor_price :: "real dict"
  market_trends :: "string dict"
  market_trends_lag1 :: "string dict"
  market_trends_lag2 :: "string dict"
  demand_forecast :: "real dict"
  trend_eta_params :: "(string \<times> real list) list"

record 'r Decision =
  restock :: "'r dict"
  price :: "real dict"
  discount :: "real dict"

text \<open>
  The dictionary returned by \<open>exog_info_fn\<close>, with its three fixed keys
  \<open>"demand"\<close>, \<open>"competitor_prices"\<close> and \<open>"market_trends"\<close>.
\<close>

record exog_info =
  exog_demand :: "real dict"
  exog_competitor_prices :: "real dict"
  exog_market_trends :: "string dict"

text \<open>One row of the market-trends table (the columns \<open>exog_info_fn\<close> reads).\<close>

record trend_row =
  Month :: string
  Model :: string
  Demand_Index :: real
  Price_Trend :: real
  Competitor_Activity :: real
  Season :: string

text \<open>
  The random stream: the value of the \<open>n\<close>-th call of \<open>prng.normal(mu, sigma)\<close> is
  \<open>draws n mu sigma\<close>, an arbitrary real; each call advances the cursor.
\<close>

record prng =
  draws :: "nat \<Rightarrow> real \<Rightarrow> real \<Rightarrow> real"
  cursor :: nat

definition normal :: "prng \<Rightarrow> real \<Rightarrow> real \<Rightarrow> real \<times> prng" where
  "normal g mu sigma = (draws g (cursor g) mu sigma, g\<lparr>cursor := Suc (cursor g)\<rparr>)"

text \<open>The fields of \<open>CarDealerInventoryModel\<close> (\<open>time_t\<close> is \<open>self.t\<close>, \<open>horizon_T\<close> is \<open>self.T\<close>).\<close>

record model =
  state :: State
  time_t :: int
  horizon_T :: int
  objective :: real
  holding_cost :: real
  discount_rate :: real
  max_inventory :: int
  seasonal_holding_cost :: "real dict"
  variance_demand :: "real dict"
  market_trends_df :: "trend_row list option"
  rng :: prng

section \<open>CarDealerInventoryModel.transition_fn\<close>

text \<open>
  The result dictionary of \<open>transition_fn\<close>: the eight State fields and the two
  diagnostic entries.
\<close>

record transition_result =
  new_state :: State
  cars_sold :: "int dict"
  cars_added :: "int dict"

text \<open>
  The first loop, over \<open>for car in self.state.inventory_level\<close>; \<open>level\<close> is
  \<open>self.state.inventory_level[car]\<close>. The accumulator holds \<open>new_inventory\<close>,
  \<open>cars_sold\<close> and \<open>cars_added\<close>. The exogenous information always carries its
  \<open>"demand"\<close> entry, so \<open>exog_info.get("demand", {})\<close> is that dictionary; a car it
  does not list has demand 0, and a car the decision does not list is restocked by 0.
\<close>

fun transition_loop ::
  "int dict \<Rightarrow> real Decision \<Rightarrow> exog_info \<Rightarrow> int dict \<times> int dict \<times> int dict
     \<Rightarrow> int dict \<times> int dict \<times> int dict" where
  "transition_loop [] d e acc = acc"
| "transition_loop ((car, level) # rest) d e (new_inventory, sold, added) =
     (let dem = py_round (dict_get (exog_demand e) car 0);
          s = min dem level;
          a = py_int (dict_get (restock d) car 0);
          n = max 0 (level + a - s)
      in transition_loop rest d e
           (dict_set new_inventory car n, dict_set sold car s, dict_set added car a))"

definition new_holding_time_of :: "State \<Rightarrow> int dict \<Rightarrow> car \<Rightarrow> error + (car \<times> int)" where
  \<comment> \<open>\<open>self.state.holding_time[car] + 1 if new_inventory[car] > 0 else 0\<close>\<close>
  "new_holding_time_of s new_inventory car =
     and_then (dict_getitem new_inventory car) (\<lambda>n.
       if 0 < n then and_then (dict_getitem (holding_time s) car) (\<lambda>h. Inr (car, h + 1))
       else Inr (car, 0))"

definition new_demand_forecast_of :: "model \<Rightarrow> exog_info \<Rightarrow> real dict" where
  \<comment> \<open>\<open>max(0, demand.get(car, 0) * (1 + 0.1 * self.t))\<close> for each car of the forecast\<close>
  "new_demand_forecast_of m e =
     map (\<lambda>car. (car, max 0 (dict_get (exog_demand e) car 0 * (1 + (1 / 10) * of_int (time_t m)))))
       (dict_keys (demand_forecast (state m)))"

definition transition_fn :: "model \<Rightarrow> real Decision \<Rightarrow> exog_info \<Rightarrow> error + transition_result" where
  "transition_fn m d e =
     (let s = state m;
          (new_inventory, sold, added) = transition_loop (inventory_level s) d e ([], [], [])
      in and_then (traverse (new_holding_time_of s new_inventory) (dict_keys (inventory_level s)))
           (\<lambda>new_holding_time.
              Inr \<lparr> new_state =
                      \<lparr> inventory_level = new_inventory,
                        holding_time = new_holding_time,
                        competitor_price = exog_competitor_prices e,
                        market_trends = exog_market_trends e,
                        market_trends_lag1 = market_trends s,
                        market_trends_lag2 = market_trends_lag1 s,
                        demand_forecast = new_demand_forecast_of m e,
                        trend_eta_params = trend_eta_params s \<rparr>,
                    cars_sold = sold,
                    cars_added = added \<rparr>))"

section \<open>CarDealerInventoryModel.is_valid_decision\<close>

text \<open>
  The method reads \<open>self.state\<close> and \<open>self.max_inventory\<close> and assigns nothing; the
  model object is returned beside the outcome so that this is part of the definition.
\<close>

definition is_valid_decision :: "model \<Rightarrow> real Decision \<Rightarrow> (error + bool) \<times> model" where
  "is_valid_decision m d =
     (case traverse (\<lambda>(car, level). and_then (dict_getitem (restock d) car)
                        (\<lambda>r. Inr (of_int level + r)))
             (inventory_level (state m)) of
        Inl e \<Rightarrow> (Inl e, m)
      | Inr terms \<Rightarrow>
          (let total_inventory = sum_list terms
           in if list_ex (\<lambda>v. v < 0) (dict_values (restock d)) then (Inl ValueError, m)
              else if of_int (max_inventory m) < total_inventory then (Inl ValueError, m)
              else (Inr True, m)))"

section \<open>CarDealerInventoryModel.objective_fn\<close>

definition lower_char :: "char \<Rightarrow> char" where
  "lower_char c =
     (let n = (of_char c :: nat) in if 65 \<le> n \<and> n \<le> 90 then char_of (n + 32) else c)"

definition py_lower :: "string \<Rightarrow> string" where
  \<comment> \<open>\<open>str.lower()\<close> on ASCII text\<close>
  "py_lower s = map lower_char s"

definition revenue_of :: "State \<Rightarrow> real Decision \<Rightarrow> exog_info \<Rightarrow> error + real" where
  \<comment> \<open>\<open>sum(min(inventory_level[car], demand[car]) * decision.price[car] for car in inventory_level)\<close>\<close>
  "revenue_of s d e =
     and_then
       (traverse (\<lambda>(car, level).
          and_then (dict_getitem (exog_demand e) car) (\<lambda>dem.
          and_then (dict_getitem (price d) car) (\<lambda>p.
            Inr (min (of_int level) dem * p))))
        (inventory_level s))
       (\<lambda>xs. Inr (sum_list xs))"

definition restocking_cost_of :: "real Decision \<Rightarrow> real" where
  \<comment> \<open>\<open>sum(decision.restock[car] * 300 for car in decision.restock)\<close>\<close>
  "restocking_cost_of d = sum_list (map (\<lambda>(car, r). r * 300) (restock d))"

definition unsold_inventory_of :: "State \<Rightarrow> exog_info \<Rightarrow> error + int dict" where
  \<comment> \<open>\<open>{car: inventory_level[car] - min(inventory_level[car], int(demand[car]))}\<close>\<close>
  "unsold_inventory_of s e =
     traverse (\<lambda>(car, level).
        and_then (dict_getitem (exog_demand e) car) (\<lambda>dem.
          Inr (car, level - min level (py_int dem))))
      (inventory_level s)"

definition seasonal_holding_cost_of :: "model \<Rightarrow> State \<Rightarrow> exog_info \<Rightarrow> int dict \<Rightarrow> error + real" where
  \<comment> \<open>the seasonal holding cost of \<open>objective_fn\<close>, keyed by the car's new trend\<close>
  "seasonal_holding_cost_of m s e unsold_inventory =
     and_then
       (traverse (\<lambda>(car, unsold).
          and_then (dict_getitem (holding_time s) car) (\<lambda>h.
          and_then (dict_getitem (exog_market_trends e) car) (\<lambda>trend.
            Inr (of_int unsold * of_int h
                 * dict_get (seasonal_holding_cost m) (py_lower trend) (holding_cost m)))))
        unsold_inventory)
       (\<lambda>xs. Inr (sum_list xs))"

definition objective_fn :: "model \<Rightarrow> real Decision \<Rightarrow> exog_info \<Rightarrow> error + real" where
  "objective_fn m d e =
     and_then (revenue_of (state m) d e) (\<lambda>revenue.
     let restocking_cost = restocking_cost_of d in
     and_then (unsold_inventory_of (state m) e) (\<lambda>unsold_inventory.
     and_then (seasonal_holding_cost_of m (state m) e unsold_inventory) (\<lambda>holding.
       Inr (revenue - (restocking_cost + holding)))))"

section \<open>CarDealerInventoryModel.exog_info_fn\<close>

definition two_digits :: "int \<Rightarrow> string" where
  \<comment> \<open>the format \<open>:02d\<close>, for the values \<open>1 .. 12\<close> it is used on\<close>
  "two_digits n = [''0123456789'' ! (nat n div 10), ''0123456789'' ! (nat n mod 10)]"

definition current_month_of :: "int \<Rightarrow> string" where
  \<comment> \<open>\<open>f"2023-{(self.t % 12) + 1:02d}"\<close>\<close>
  "current_month_of t = ''2023-'' @ two_digits (t mod 12 + 1)"

text \<open>
  The dictionary comprehension of the branch that found a trend row: it rebuilds the
  whole \<open>demand\<close> dictionary, one draw \<open>normal(forecast[car], 10)\<close> per tracked car.
\<close>

fun demand_comprehension :: "State \<Rightarrow> car list \<Rightarrow> prng \<Rightarrow> error + (real dict \<times> prng)" where
  "demand_comprehension s [] g = Inr ([], g)"
| "demand_comprehension s (car # rest) g =
     (case dict_getitem (demand_forecast s) car of
        Inl err \<Rightarrow> Inl err
      | Inr f \<Rightarrow>
          (case normal g f 10 of (x, g1) \<Rightarrow>
             (case demand_comprehension s rest g1 of
                Inl err \<Rightarrow> Inl err
              | Inr (ds, g2) \<Rightarrow> Inr ((car, max 0 x) # ds, g2))))"

text \<open>
  The loop \<open>for car in self.state.inventory_level\<close>; the accumulator holds \<open>demand\<close>,
  \<open>competitor_prices\<close>, \<open>new_market_trends\<close> and the random stream.
\<close>

fun exog_loop ::
  "State \<Rightarrow> trend_row list \<Rightarrow> car list \<Rightarrow> real dict \<times> real dict \<times> string dict \<times> prng
     \<Rightarrow> error + (real dict \<times> real dict \<times> string dict \<times> prng)" where
  "exog_loop s trends_for_month [] acc = Inr acc"
| "exog_loop s trends_for_month (car # rest) (dem, competitor_prices, new_market_trends, g) =
     (case filter (\<lambda>r. Model r = car) trends_for_month of
        row # _ \<Rightarrow>
          (case normal g 0 (5 / 100) of (random_variation, g1) \<Rightarrow>
             (case demand_comprehension s (dict_keys (inventory_level s)) g1 of
                Inl err \<Rightarrow> Inl err
              | Inr (dem', g2) \<Rightarrow>
                  (case dict_getitem (competitor_price s) car of
                     Inl err \<Rightarrow> Inl err
                   | Inr cp \<Rightarrow>
                       exog_loop s trends_for_month rest
                         (dem',
                          dict_set competitor_prices car
                            (max 0 (cp + Price_Trend row - Competitor_Activity row)),
                          dict_set new_market_trends car (Season row),
                          g2))))
      | [] \<Rightarrow>
          (let base_demand = dict_get (demand_forecast s) car 0
           in case normal g 0 5 of (x, g1) \<Rightarrow>
                (case dict_getitem (competitor_price s) car of
                   Inl err \<Rightarrow> Inl err
                 | Inr cp \<Rightarrow>
                     exog_loop s trends_for_month rest
                       (dict_set dem car (max 0 (base_demand + x)),
                        dict_set competitor_prices car cp,
                        dict_set new_market_trends car ''stable'',
                        g1))))"

definition cap_demand :: "State \<Rightarrow> real dict \<Rightarrow> real dict" where
  \<comment> \<open>\<open>{car: min(demand[car], max_demand.get(car, demand[car])) for car in demand}\<close>\<close>
  "cap_demand s dem =
     (let max_demand = map (\<lambda>(car, f). (car, 2 * f)) (demand_forecast s)
      in map (\<lambda>(car, dv). (car, min dv (dict_get max_demand car dv))) dem)"

definition exog_info_fn :: "model \<Rightarrow> error + (exog_info \<times> model)" where
  \<comment> \<open>subscripting \<open>self.market_trends_df\<close> when it is \<open>None\<close> raises TypeError\<close>
  "exog_info_fn m =
     (case market_trends_df m of
        None \<Rightarrow> Inl TypeError
      | Some df \<Rightarrow>
          (let current_month = current_month_of (time_t m);
               trends_for_month = filter (\<lambda>r. Month r = current_month) df
           in case exog_loop (state m) trends_for_month (dict_keys (inventory_level (state m)))
                     ([], [], [], rng m) of
                Inl err \<Rightarrow> Inl err
              | Inr (dem, competitor_prices, new_market_trends, g) \<Rightarrow>
                  Inr (\<lparr> exog_demand = cap_demand (state m) dem,
                          exog_competitor_prices = competitor_prices,
                          exog_market_trends = new_market_trends \<rparr>,
                       m\<lparr>rng := g\<rparr>)))"

section \<open>SDPPolicy.get_decision: the threshold / order-up-to policy\<close>

definition is_winter :: "int \<Rightarrow> bool" where
  "is_winter t = (t mod 12 \<in> set [9, 10, 11, 0, 1])"

definition seasonal_theta_min :: "int \<Rightarrow> int dict" where
  "seasonal_theta_min t =
     (if is_winter t then [(''Car A'', 5), (''Car B'', 10), (''Car C'', 5)]
      else [(''Car A'', 10), (''Car B'', 12), (''Car C'', 8)])"

definition seasonal_theta_max :: "int \<Rightarrow> int dict" where
  "seasonal_theta_max t =
     (if is_winter t then [(''Car A'', 15), (''Car B'', 20), (''Car C'', 15)]
      else [(''Car A'', 20), (''Car B'', 25), (''Car C'', 20)])"

definition dict_eq_str :: "string dict \<Rightarrow> string \<Rightarrow> bool" where
  \<comment> \<open>\<open>state.market_trends == "rising"\<close>: a dict never equals a str\<close>
  "dict_eq_str d s = False"

definition adjusted_theta_max :: "State \<Rightarrow> int dict \<Rightarrow> int dict" where
  "adjusted_theta_max s theta_max =
     (if dict_eq_str (market_trends s) ''rising''
      then map (\<lambda>(car, v). (car, v + 2)) theta_max else theta_max)"

definition adjusted_theta_min :: "State \<Rightarrow> int dict \<Rightarrow> int dict" where
  "adjusted_theta_min s theta_min =
     (if dict_eq_str (market_trends s) ''rising'' then theta_min
      else if dict_eq_str (market_trends s) ''declining''
      then map (\<lambda>(car, v). (car, max 0 (v - 2))) theta_min else theta_min)"

text \<open>
  The restocking loop \<open>for car in state.inventory_level\<close>, with the dictionary
  \<open>restock\<close> built so far and \<open>available_capacity\<close>.
\<close>

fun restock_loop ::
  "int dict \<Rightarrow> int dict \<Rightarrow> int dict \<Rightarrow> int dict \<Rightarrow> int \<Rightarrow> error + int dict" where
  "restock_loop [] theta_min theta_max rs available_capacity = Inr rs"
| "restock_loop ((car, level) # rest) theta_min theta_max rs available_capacity =
     (case dict_getitem theta_min car of
        Inl err \<Rightarrow> Inl err
      | Inr tmin \<Rightarrow>
          if level < tmin then
            (case dict_getitem theta_max car of
               Inl err \<Rightarrow> Inl err
             | Inr tmax \<Rightarrow>
                 (let target_restock = tmax - level;
                      r = min target_restock available_capacity
                  in restock_loop rest theta_min theta_max (dict_set rs car r)
                       (available_capacity - r)))
          else restock_loop rest theta_min theta_max (dict_set rs car 0) available_capacity)"

definition threshold_price :: "State \<Rightarrow> car \<Rightarrow> error + (car \<times> real)" where
  \<comment> \<open>\<open>state.competitor_price[car] - (100 if state.holding_time[car] > 10 else 50)\<close>\<close>
  "threshold_price s car =
     and_then (dict_getitem (competitor_price s) car) (\<lambda>cp.
     and_then (dict_getitem (holding_time s) car) (\<lambda>h.
       Inr (car, cp - (if 10 < h then 100 else 50))))"

definition threshold_discount :: "model \<Rightarrow> State \<Rightarrow> car \<Rightarrow> error + (car \<times> real)" where
  \<comment> \<open>\<open>self.model.discount_rate if state.holding_time[car] > 30 else 0\<close>\<close>
  "threshold_discount m s car =
     and_then (dict_getitem (holding_time s) car) (\<lambda>h.
       Inr (car, if 30 < h then discount_rate m else 0))"

definition get_decision :: "model \<Rightarrow> State \<Rightarrow> int \<Rightarrow> int \<Rightarrow> error + int Decision" where
  "get_decision m s t T =
     (let theta_min = adjusted_theta_min s (seasonal_theta_min t);
          theta_max = adjusted_theta_max s (seasonal_theta_max t);
          total_inventory = sum_list (dict_values (inventory_level s));
          available_capacity = max_inventory m - total_inventory
      in and_then (restock_loop (inventory_level s) theta_min theta_max [] available_capacity)
           (\<lambda>rs.
         and_then (traverse (threshold_price s) (dict_keys (inventory_level s))) (\<lambda>pr.
         and_then (traverse (threshold_discount m s) (dict_keys (inventory_level s))) (\<lambda>di.
           Inr \<lparr> restock = rs, price = pr, discount = di \<rparr>))))"

section \<open>CarDealerPolicy: the forecast-adaptive policy and its runner\<close>

record CarDealerPolicy =
  policy_model :: model
  policy_name :: string

definition trend_adjustments :: "real dict" where
  "trend_adjustments = [(''rising'', 12 / 10), (''stable'', 1), (''declining'', 8 / 10)]"

definition safety_buffer_of :: "real \<Rightarrow> error + int" where
  \<comment> \<open>\<open>int(v ** 0.5)\<close>: a negative base gives a complex number, which \<open>int\<close> rejects\<close>
  "safety_buffer_of v = (if v < 0 then Inl TypeError else Inr (py_int (sqrt v)))"

text \<open>
  The loop \<open>for car, level in self.model.state.inventory_level.items()\<close> of
  \<open>basic_order_up_to_policy\<close>; \<open>m\<close> is \<open>self.model\<close>.
\<close>

fun order_up_to_loop ::
  "model \<Rightarrow> int dict \<Rightarrow> exog_info \<Rightarrow> int dict \<Rightarrow> real dict \<Rightarrow> error + real dict" where
  "order_up_to_loop m theta_max e [] rs = Inr rs"
| "order_up_to_loop m theta_max e ((car, level) # rest) rs =
     (let current_trend = dict_get (market_trends (state m)) car ''stable'';
          trend_factor = dict_get trend_adjustments current_trend 1
      in case dict_getitem (variance_demand m) car of
           Inl err \<Rightarrow> Inl err
         | Inr v \<Rightarrow>
             (case safety_buffer_of v of
                Inl err \<Rightarrow> Inl err
              | Inr safety_buffer \<Rightarrow>
                  (case dict_getitem (exog_demand e) car of
                     Inl err \<Rightarrow> Inl err
                   | Inr dem \<Rightarrow>
                       (let target_demand = dem + of_int safety_buffer
                        in case dict_getitem theta_max car of
                             Inl err \<Rightarrow> Inl err
                           | Inr tmax \<Rightarrow>
                               order_up_to_loop m theta_max e rest
                                 (dict_set rs car
                                    (max 0 (min (of_int (tmax - level))
                                                (trend_factor * target_demand))))))))"

definition order_up_to_price :: "State \<Rightarrow> car \<Rightarrow> error + (car \<times> real)" where
  \<comment> \<open>\<open>max(0, self.model.state.competitor_price[car] - 50)\<close>\<close>
  "order_up_to_price s car =
     and_then (dict_getitem (competitor_price s) car) (\<lambda>cp. Inr (car, max 0 (cp - 50)))"

definition basic_order_up_to_policy ::
  "CarDealerPolicy \<Rightarrow> int dict \<Rightarrow> int dict \<Rightarrow> exog_info \<Rightarrow> error + real Decision" where
  "basic_order_up_to_policy self theta_min theta_max e =
     (let m = policy_model self
      in and_then (order_up_to_loop m theta_max e (inventory_level (state m)) []) (\<lambda>rs.
         and_then (traverse (order_up_to_price (state m)) (dict_keys (inventory_level (state m))))
           (\<lambda>pr.
           Inr \<lparr> restock = rs, price = pr,
                 discount = map (\<lambda>car. (car, 0)) (dict_keys (inventory_level (state m))) \<rparr>)))"

text \<open>policy_util.py: the same restocking rule over explicit arguments.\<close>

fun basic_order_up_to_policy_util_loop ::
  "int dict \<Rightarrow> int dict \<Rightarrow> real dict \<Rightarrow> real dict \<Rightarrow> real dict \<Rightarrow> real dict
     \<Rightarrow> error + real dict" where
  "basic_order_up_to_policy_util_loop [] theta_max forecast trend_factors variance rs = Inr rs"
| "basic_order_up_to_policy_util_loop ((car, level) # rest) theta_max forecast trend_factors
       variance rs =
     (case dict_getitem variance car of
        Inl err \<Rightarrow> Inl err
      | Inr v \<Rightarrow>
          (case safety_buffer_of v of
             Inl err \<Rightarrow> Inl err
           | Inr safety_buffer \<Rightarrow>
               (case dict_getitem theta_max car of
                  Inl err \<Rightarrow> Inl err
                | Inr tmax \<Rightarrow>
                    (case dict_getitem trend_factors car of
                       Inl err \<Rightarrow> Inl err
                     | Inr tf \<Rightarrow>
                         (case dict_getitem forecast car of
                            Inl err \<Rightarrow> Inl err
                          | Inr f \<Rightarrow>
                              basic_order_up_to_policy_util_loop rest theta_max forecast
                                trend_factors variance
                                (dict_set rs car
                                   (max 0 (min (of_int (tmax - level))
                                               (tf * (f + of_int safety_buffer))))))))))"

definition basic_order_up_to_policy_util ::
  "int dict \<Rightarrow> int dict \<Rightarrow> int dict \<Rightarrow> real dict \<Rightarrow> real dict \<Rightarrow> real dict
     \<Rightarrow> error + real dict" where
  "basic_order_up_to_policy_util inventory theta_min theta_max forecast trend_factors variance =
     basic_order_up_to_policy_util_loop inventory theta_max forecast trend_factors variance []"

text \<open>
  One entry of the list \<open>run_policy\<close> returns, and one pass through the body of its loop.
  \<open>self\<close> is the policy object, \<open>mc\<close> is \<open>model_copy\<close>; the policy function is the
  bound method passed by the caller, called with \<open>theta_min\<close>, \<open>theta_max\<close> and the
  exogenous information.
\<close>

record result_row =
  res_t :: nat
  res_state_before :: State
  res_decision :: "real Decision"
  res_state_after :: transition_result
  res_revenue :: real
  res_restocking_cost :: real
  res_holding_cost :: real
  res_profit :: real
  res_objective :: real

definition flat_holding_cost_of :: "real \<Rightarrow> State \<Rightarrow> int dict \<Rightarrow> error + real" where
  \<comment> \<open>\<open>sum(unsold_inventory[car] * holding_time[car] * self.model.holding_cost ...)\<close>\<close>
  "flat_holding_cost_of hc s unsold_inventory =
     and_then
       (traverse (\<lambda>(car, unsold).
          and_then (dict_getitem (holding_time s) car) (\<lambda>h.
            Inr (of_int unsold * of_int h * hc)))
        unsold_inventory)
       (\<lambda>xs. Inr (sum_list xs))"

definition run_policy_step ::
  "CarDealerPolicy \<Rightarrow> (int dict \<Rightarrow> int dict \<Rightarrow> exog_info \<Rightarrow> error + real Decision)
     \<Rightarrow> int dict \<Rightarrow> int dict \<Rightarrow> nat \<Rightarrow> model \<Rightarrow> error + (model \<times> result_row)" where
  "run_policy_step self policy_fn theta_min theta_max i mc =
     and_then (exog_info_fn mc) (\<lambda>(e, mc1).
     and_then (policy_fn theta_min theta_max e) (\<lambda>d.
     let state_before = state mc1 in
     and_then (transition_fn mc1 d e) (\<lambda>new.
     let mc2 = mc1\<lparr>state := new_state new\<rparr> in
     and_then (objective_fn mc2 d e) (\<lambda>step_profit.
     let mc3 = mc2\<lparr>objective := objective mc2 + step_profit\<rparr> in
     and_then (revenue_of (state mc3) d e) (\<lambda>revenue.
     let restocking_cost = restocking_cost_of d in
     and_then (unsold_inventory_of (state mc3) e) (\<lambda>unsold_inventory.
     and_then (flat_holding_cost_of (holding_cost (policy_model self)) (state mc3) unsold_inventory)
       (\<lambda>holding.
       Inr (mc3,
            \<lparr> res_t = i, res_state_before = state_before, res_decision = d,
              res_state_after = new, res_revenue = revenue,
              res_restocking_cost = restocking_cost, res_holding_cost = holding,
              res_profit = step_profit, res_objective = objective mc3 \<rparr>))))))))"

fun run_policy_loop ::
  "CarDealerPolicy \<Rightarrow> (int dict \<Rightarrow> int dict \<Rightarrow> exog_info \<Rightarrow> error + real Decision)
     \<Rightarrow> int dict \<Rightarrow> int dict \<Rightarrow> nat list \<Rightarrow> model \<Rightarrow> result_row list
     \<Rightarrow> error + result_row list" where
  "run_policy_loop self policy_fn theta_min theta_max [] mc results = Inr results"
| "run_policy_loop self policy_fn theta_min theta_max (i # is) mc results =
     (if horizon_T mc \<le> time_t mc then Inr results
      else case run_policy_step self policy_fn theta_min theta_max i mc of
             Inl err \<Rightarrow> Inl err
           | Inr (mc', row) \<Rightarrow>
               run_policy_loop self policy_fn theta_min theta_max is mc' (results @ [row]))"

definition run_policy ::
  "CarDealerPolicy \<Rightarrow> (int dict \<Rightarrow> int dict \<Rightarrow> exog_info \<Rightarrow> error + real Decision)
     \<Rightarrow> int \<Rightarrow> int dict \<Rightarrow> int dict \<Rightarrow> error + result_row list" where
  "run_policy self policy_fn n_iterations theta_min theta_max =
     run_policy_loop self policy_fn theta_min theta_max [0 ..< nat n_iterations]
       (policy_model self) []"

section \<open>The quantities the specification names\<close>

text \<open>
  The total post-restock inventory in the specification's words: the sum over the
  tracked cars of \<open>inventory_level[c] + restock[c]\<close>.
\<close>

definition post_restock_total :: "model \<Rightarrow> real Decision \<Rightarrow> real" where
  "post_restock_total m d =
     (\<Sum>(c, l) \<leftarrow> inventory_level (state m). of_int l + dict_get (restock d) c 0)"


text \<open>
  The restock quantity of the forecast-adaptive policy for a car at inventory \<open>level\<close>,
  with every lookup written as \<open>get\<close>: the trend factor multiplies the demand together
  with the safety buffer \<open>int(variance ** 0.5)\<close>.
\<close>

definition order_up_to_quantity :: "model \<Rightarrow> int dict \<Rightarrow> exog_info \<Rightarrow> car \<Rightarrow> int \<Rightarrow> real" where
  "order_up_to_quantity m theta_max e c level =
     max 0 (min (of_int (dict_get theta_max c 0 - level))
                (dict_get trend_adjustments (dict_get (market_trends (state m)) c ''stable'') 1
                 * (dict_get (exog_demand e) c 0
                    + of_int (py_int (sqrt (dict_get (variance_demand m) c 0))))))"

text \<open>
  The same quantity for \<open>basic_order_up_to_policy_util\<close>, over its explicit arguments.
\<close>

definition util_quantity ::
  "int dict \<Rightarrow> real dict \<Rightarrow> real dict \<Rightarrow> real dict \<Rightarrow> car \<Rightarrow> int \<Rightarrow> real" where
  "util_quantity theta_max forecast trend_factors variance c level =
     max 0 (min (of_int (dict_get theta_max c 0 - level))
                (dict_get trend_factors c 0
                 * (dict_get forecast c 0 + of_int (py_int (sqrt (dict_get variance c 0))))))"

section \<open>Concrete inputs\<close>

text \<open>
  A one-car fleet: car \<open>A\<close> with 10 units held for one period, an empty trend table
  (every car takes the fallback branch) and a random stream whose draws equal their mean.
\<close>

definition ex_state :: State where
  "ex_state =
     \<lparr> inventory_level = [(''A'', 10)],
       holding_time = [(''A'', 1)],
       competitor_price = [(''A'', 150)],
       market_trends = [(''A'', ''stable'')],
       market_trends_lag1 = [(''A'', ''stable'')],
       market_trends_lag2 = [(''A'', ''stable'')],
       demand_forecast = [(''A'', 10)],
       trend_eta_params =
         [(''stable'', [6 / 10, 3 / 10, 1 / 10]), (''rising'', [7 / 10, 2 / 10, 1 / 10]),
          (''declining'', [5 / 10, 3 / 10, 2 / 10])] \<rparr>"

definition ex_prng :: prng where
  "ex_prng = \<lparr> draws = (\<lambda>n mu sigma. mu), cursor = 0 \<rparr>"

definition ex_model :: model where
  "ex_model =
     \<lparr> state = ex_state, time_t = 0, horizon_T = 30, objective = 0, holding_cost = 85,
       discount_rate = 5 / 100, max_inventory = 50,
       seasonal_holding_cost = [(''winter'', 90), (''summer'', 70)],
       variance_demand = [(''A'', 0)], market_trends_df = Some [], rng = ex_prng \<rparr>"

definition ex_decision :: "real Decision" where
  "ex_decision = \<lparr> restock = [(''A'', 5)], price = [(''A'', 100)], discount = [(''A'', 0)] \<rparr>"

definition ex_decision_frac :: "real Decision" where
  "ex_decision_frac =
     \<lparr> restock = [(''A'', 5 / 2)], price = [(''A'', 100)], discount = [(''A'', 0)] \<rparr>"

definition ex_exog :: exog_info where
  "ex_exog =
     \<lparr> exog_demand = [(''A'', 4)], exog_competitor_prices = [(''A'', 150)],
       exog_market_trends = [(''A'', ''stable'')] \<rparr>"

lemmas ex_defs = ex_state_def ex_prng_def ex_model_def ex_decision_def ex_decision_frac_def ex_exog_def

text \<open>
  The fleet of the order-up-to scenario: one car \<open>Car A\<close> at inventory 3; and the same
  fleet with a competitor price below the policy's markdown.
\<close>

definition ex_threshold_state :: State where
  "ex_threshold_state =
     \<lparr> inventory_level = [(''Car A'', 3)],
       holding_time = [(''Car A'', 1)],
       competitor_price = [(''Car A'', 20000)],
       market_trends = [(''Car A'', ''stable'')],
       market_trends_lag1 = [(''Car A'', ''stable'')],
       market_trends_lag2 = [(''Car A'', ''stable'')],
       demand_forecast = [(''Car A'', 4)],
       trend_eta_params = [] \<rparr>"

definition ex_cheap_state :: State where
  "ex_cheap_state = ex_threshold_state\<lparr>competitor_price := [(''Car A'', 30)]\<rparr>"

text \<open>
  Policy objects over the one-car model; a model whose competitor price is below 50; a
  model at inventory 49 of 50 with a rising trend; and the exogenous information that
  \<open>exog_info_fn\<close> produces on these models.
\<close>

definition ex_policy :: CarDealerPolicy where
  "ex_policy = \<lparr> policy_model = ex_model, policy_name = ''OrderUpToPolicy'' \<rparr>"

definition ex_cheap_model :: model where
  "ex_cheap_model = ex_model\<lparr>state := ex_state\<lparr>competitor_price := [(''A'', 30)]\<rparr>\<rparr>"

definition ex_cheap_policy :: CarDealerPolicy where
  "ex_cheap_policy = \<lparr> policy_model = ex_cheap_model, policy_name = ''OrderUpToPolicy'' \<rparr>"

definition ex_full_model :: model where
  "ex_full_model =
     ex_model\<lparr>state := ex_state\<lparr>inventory_level := [(''A'', 49)],
                                 market_trends := [(''A'', ''rising'')]\<rparr>\<rparr>"

definition ex_full_policy :: CarDealerPolicy where
  "ex_full_policy = \<lparr> policy_model = ex_full_model, policy_name = ''OrderUpToPolicy'' \<rparr>"

definition ex_exog10 :: exog_info where
  "ex_exog10 =
     \<lparr> exog_demand = [(''A'', 10)], exog_competitor_prices = [(''A'', 150)],
       exog_market_trends = [(''A'', ''stable'')] \<rparr>"


lemmas ex_policy_defs = ex_policy_def ex_cheap_model_def ex_cheap_policy_def ex_full_model_def
  ex_full_policy_def ex_exog10_def

section \<open>Facts about dictionaries and the error monad\<close>

lemma map_of_dict_set: "map_of (dict_set d k v) = (map_of d)(k \<mapsto> v)"
  by (induction d k v rule: dict_set.induct) auto

lemma dict_set_fresh: "k \<notin> set (map fst d) \<Longrightarrow> dict_set d k v = d @ [(k, v)]"
  by (induction d k v rule: dict_set.induct) auto

lemma traverse_Inr_map:
  "(\<And>x. x \<in> set xs \<Longrightarrow> f x = Inr (g x)) \<Longrightarrow> traverse f xs = Inr (map g xs)"
  by (induction xs) simp_all

lemma traverse_Inr_length: "traverse f xs = Inr ys \<Longrightarrow> length ys = length xs"
  by (induction xs arbitrary: ys) (auto split: sum.splits)

lemma map_of_map_items:
  "map_of (map (\<lambda>(k, v). (k, f k v)) xs) k = map_option (f k) (map_of xs k)"
  by (induction xs) auto

lemma map_of_map_keys:
  "map_of (map (\<lambda>k. (k, g k)) ks) k = (if k \<in> set ks then Some (g k) else None)"
  by (induction ks) auto

lemma dict_getitem_Some: "map_of d k = Some v \<Longrightarrow> dict_getitem d k = Inr v"
  by (simp add: dict_getitem_def)

lemma dict_get_Some: "map_of d k = Some v \<Longrightarrow> dict_get d k dflt = v"
  by (simp add: dict_get_def)

lemma in_keys_map_of: "k \<in> set (dict_keys d) \<Longrightarrow> \<exists>v. map_of d k = Some v"
  unfolding dict_keys_def by (induction d) auto

lemma traverse_Inr_each:
  "traverse f xs = Inr ys \<Longrightarrow> x \<in> set xs \<Longrightarrow> \<exists>y. f x = Inr y"
  by (induction xs arbitrary: ys) (auto split: sum.splits)

lemma of_int_sum_list_map:
  "real_of_int (sum_list (map f xs)) = sum_list (map (\<lambda>x. real_of_int (f x)) xs)"
  by (induction xs) simp_all

lemma py_round_nonneg: "0 \<le> x \<Longrightarrow> 0 \<le> py_round x"
  by (auto simp: py_round_def Let_def)

lemma py_int_le: "0 \<le> x \<Longrightarrow> 0 \<le> py_int x \<and> of_int (py_int x) \<le> x"
  by (auto simp: py_int_def)

lemma dict_get_nonneg:
  "\<forall>v \<in> set (dict_values d). (0::real) \<le> v \<Longrightarrow> 0 \<le> dict_get d k 0"
  by (auto simp: dict_get_def dict_values_def split: option.splits dest!: map_of_SomeD)

section \<open>The transition function\<close>

lemma transition_loop_distinct:
  "distinct (map fst its) \<Longrightarrow>
   set (map fst its) \<inter> set (map fst ni) = {} \<Longrightarrow>
   set (map fst its) \<inter> set (map fst so) = {} \<Longrightarrow>
   set (map fst its) \<inter> set (map fst ad) = {} \<Longrightarrow>
   transition_loop its d e (ni, so, ad) =
     (ni @ map (\<lambda>(c, l). (c, max 0 (l + py_int (dict_get (restock d) c 0)
                              - min (py_round (dict_get (exog_demand e) c 0)) l))) its,
      so @ map (\<lambda>(c, l). (c, min (py_round (dict_get (exog_demand e) c 0)) l)) its,
      ad @ map (\<lambda>(c, l). (c, py_int (dict_get (restock d) c 0))) its)"
proof (induction its arbitrary: ni so ad)
  case Nil
  then show ?case by simp
next
  case (Cons p its)
  obtain c l where p: "p = (c, l)" by (cases p)
  from Cons.prems p have fresh: "c \<notin> set (map fst ni)" "c \<notin> set (map fst so)" "c \<notin> set (map fst ad)"
    by auto
  from Cons.prems p have d: "distinct (map fst its)" and cn: "c \<notin> set (map fst its)" by auto
  show ?case
    unfolding p
    apply (simp add: Let_def dict_set_fresh[OF fresh(1)] dict_set_fresh[OF fresh(2)] dict_set_fresh[OF fresh(3)])
    apply (subst Cons.IH)
    using Cons.prems p d cn by auto
qed

lemma transition_loop_start:
  assumes "distinct (dict_keys its)"
  shows "transition_loop its d e ([], [], []) =
     (map (\<lambda>(c, l). (c, max 0 (l + py_int (dict_get (restock d) c 0)
                              - min (py_round (dict_get (exog_demand e) c 0)) l))) its,
      map (\<lambda>(c, l). (c, min (py_round (dict_get (exog_demand e) c 0)) l)) its,
      map (\<lambda>(c, l). (c, py_int (dict_get (restock d) c 0))) its)"
  using transition_loop_distinct[of its "[]" "[]" "[]" d e] assms
  by (simp add: dict_keys_def)

lemma transition_fn_result:
  assumes dist: "distinct (dict_keys (inventory_level (state m)))"
      and cover: "set (dict_keys (inventory_level (state m))) \<subseteq> set (dict_keys (holding_time (state m)))"
  shows "transition_fn m d e = Inr
      \<lparr> new_state =
          \<lparr> inventory_level =
              map (\<lambda>(c, l). (c, max 0 (l + py_int (dict_get (restock d) c 0)
                              - min (py_round (dict_get (exog_demand e) c 0)) l)))
                (inventory_level (state m)),
            holding_time =
              map (\<lambda>c. (c, if 0 < max 0 (dict_get (inventory_level (state m)) c 0
                                      + py_int (dict_get (restock d) c 0)
                                      - min (py_round (dict_get (exog_demand e) c 0))
                                            (dict_get (inventory_level (state m)) c 0))
                           then dict_get (holding_time (state m)) c 0 + 1 else 0))
                (dict_keys (inventory_level (state m))),
            competitor_price = exog_competitor_prices e,
            market_trends = exog_market_trends e,
            market_trends_lag1 = market_trends (state m),
            market_trends_lag2 = market_trends_lag1 (state m),
            demand_forecast = new_demand_forecast_of m e,
            trend_eta_params = trend_eta_params (state m) \<rparr>,
        cars_sold = map (\<lambda>(c, l). (c, min (py_round (dict_get (exog_demand e) c 0)) l))
                      (inventory_level (state m)),
        cars_added = map (\<lambda>(c, l). (c, py_int (dict_get (restock d) c 0)))
                      (inventory_level (state m)) \<rparr>"
proof -
  let ?s = "state m"
  let ?ni = "map (\<lambda>(c, l). (c, max 0 (l + py_int (dict_get (restock d) c 0)
                              - min (py_round (dict_get (exog_demand e) c 0)) l)))
                (inventory_level ?s)"
  let ?g = "\<lambda>c. (c, if 0 < max 0 (dict_get (inventory_level (state m)) c 0
                                      + py_int (dict_get (restock d) c 0)
                                      - min (py_round (dict_get (exog_demand e) c 0))
                                            (dict_get (inventory_level (state m)) c 0))
                           then dict_get (holding_time (state m)) c 0 + 1 else (0::int))"
  have step: "new_holding_time_of ?s ?ni c = Inr (?g c)"
    if "c \<in> set (dict_keys (inventory_level ?s))" for c
  proof -
    from that obtain l where l: "map_of (inventory_level ?s) c = Some l"
      using in_keys_map_of by blast
    from that cover obtain h where h: "map_of (holding_time ?s) c = Some h"
      using in_keys_map_of by blast
    show ?thesis
      by (auto simp add: new_holding_time_of_def and_then_def dict_getitem_def
            dict_get_Some[OF l] dict_get_Some[OF h] map_of_map_items l h)
  qed
  have tr: "traverse (new_holding_time_of ?s ?ni) (dict_keys (inventory_level ?s))
            = Inr (map ?g (dict_keys (inventory_level ?s)))"
    by (rule traverse_Inr_map) (rule step)
  show ?thesis
    unfolding transition_fn_def Let_def transition_loop_start[OF dist]
    by (simp add: tr and_then_def)
qed

lemma transition_fn_inventory:
  assumes "distinct (dict_keys (inventory_level (state m)))"
      and "transition_fn m d e = Inr r"
  shows "inventory_level (new_state r) =
     map (\<lambda>(c, l). (c, max 0 (l + py_int (dict_get (restock d) c 0)
                              - min (py_round (dict_get (exog_demand e) c 0)) l)))
       (inventory_level (state m))"
  using assms(2)
  unfolding transition_fn_def Let_def transition_loop_start[OF assms(1)]
  by (auto simp: and_then_def split: sum.splits)

lemma ex_transition:
  "transition_fn ex_model ex_decision ex_exog = Inr
     \<lparr> new_state =
         \<lparr> inventory_level = [(''A'', 11)],
           holding_time = [(''A'', 2)],
           competitor_price = [(''A'', 150)],
           market_trends = [(''A'', ''stable'')],
           market_trends_lag1 = [(''A'', ''stable'')],
           market_trends_lag2 = [(''A'', ''stable'')],
           demand_forecast = [(''A'', 4)],
           trend_eta_params = trend_eta_params ex_state \<rparr>,
       cars_sold = [(''A'', 4)],
       cars_added = [(''A'', 5)] \<rparr>"
  by (simp add: transition_fn_def ex_defs Let_def dict_get_def dict_getitem_def and_then_def
        new_holding_time_of_def new_demand_forecast_of_def dict_keys_def py_round_def py_int_def)

text \<open>
  Claim C5, as amended. For every tracked car \<open>c\<close> with inventory \<open>level\<close> and holding
  time \<open>h\<close>, \<open>transition_fn\<close> returns a result in which
  \<open>cars_sold[c] = min(round(demand.get(c, 0)), level)\<close>,
  \<open>cars_added[c] = int(restock.get(c, 0))\<close> (truncation toward zero),
  \<open>new_inventory[c] = max(0, level + cars_added[c] - cars_sold[c])\<close> and
  \<open>new_holding_time[c] = h + 1\<close> if \<open>new_inventory[c] > 0\<close>, else \<open>0\<close>.
\<close>

theorem transition_fn_per_car:
  assumes "distinct (dict_keys (inventory_level (state m)))"
      and "set (dict_keys (inventory_level (state m))) \<subseteq> set (dict_keys (holding_time (state m)))"
      and "map_of (inventory_level (state m)) c = Some level"
      and "map_of (holding_time (state m)) c = Some h"
  shows "\<exists>r. transition_fn m d e = Inr r
           \<and> map_of (cars_sold r) c = Some (min (py_round (dict_get (exog_demand e) c 0)) level)
           \<and> map_of (cars_added r) c = Some (py_int (dict_get (restock d) c 0))
           \<and> map_of (inventory_level (new_state r)) c =
               Some (max 0 (level + py_int (dict_get (restock d) c 0)
                            - min (py_round (dict_get (exog_demand e) c 0)) level))
           \<and> map_of (holding_time (new_state r)) c =
               Some (if 0 < max 0 (level + py_int (dict_get (restock d) c 0)
                                   - min (py_round (dict_get (exog_demand e) c 0)) level)
                     then h + 1 else 0)"
proof -
  have ck: "c \<in> set (dict_keys (inventory_level (state m)))"
    using assms(3) by (auto simp: dict_keys_def dest: map_of_SomeD intro: rev_image_eqI)
  show ?thesis
    unfolding transition_fn_result[OF assms(1,2)]
    by (auto simp add: map_of_map_items map_of_map_keys assms(3,4) ck
          dict_get_Some[OF assms(3)] dict_get_Some[OF assms(4)])
qed

theorem transition_fn_per_car_witness:
  "\<exists>r. transition_fn ex_model ex_decision_frac ex_exog = Inr r
       \<and> map_of (cars_sold r) ''A'' = Some 4
       \<and> map_of (cars_added r) ''A'' = Some 2
       \<and> map_of (inventory_level (new_state r)) ''A'' = Some 8
       \<and> map_of (holding_time (new_state r)) ''A'' = Some 2"
proof -
  have dist: "distinct (dict_keys (inventory_level (state ex_model)))"
    by (simp add: ex_defs dict_keys_def)
  have cover: "set (dict_keys (inventory_level (state ex_model)))
               \<subseteq> set (dict_keys (holding_time (state ex_model)))"
    by (simp add: ex_defs dict_keys_def)
  have l: "map_of (inventory_level (state ex_model)) ''A'' = Some 10"
    by (simp add: ex_defs)
  have h: "map_of (holding_time (state ex_model)) ''A'' = Some 1"
    by (simp add: ex_defs)
  have r: "py_int (dict_get (restock ex_decision_frac) ''A'' 0) = 2"
    by (simp add: ex_defs dict_get_def py_int_def)
  have s: "py_round (dict_get (exog_demand ex_exog) ''A'' 0) = 4"
    by (simp add: ex_defs dict_get_def py_round_def)
  from transition_fn_per_car[OF dist cover l h, of ex_decision_frac ex_exog]
  show ?thesis unfolding r s by simp
qed

text \<open>
  Claim C5 as stated, with \<open>restock[c]\<close> itself added to the inventory, fails on a
  fractional restock quantity: with inventory 10, restock 2.5 and demand 4 the new
  inventory is 8, not 8.5.
\<close>

theorem transition_fn_truncates_restock:
  "(case transition_fn ex_model ex_decision_frac ex_exog of
      Inl err \<Rightarrow> False
    | Inr r \<Rightarrow>
        map_of (inventory_level (state ex_model)) ''A'' = Some 10
        \<and> map_of (restock ex_decision_frac) ''A'' = Some (5 / 2)
        \<and> map_of (cars_sold r) ''A'' = Some 4
        \<and> map_of (inventory_level (new_state r)) ''A'' = Some 8
        \<and> real_of_int 8 \<noteq> max 0 (real_of_int 10 + 5 / 2 - real_of_int 4))"
  by (simp add: transition_fn_def ex_defs Let_def dict_get_def dict_getitem_def and_then_def
        new_holding_time_of_def new_demand_forecast_of_def dict_keys_def py_round_def py_int_def)

section \<open>Validation\<close>

lemma restock_terms_covered:
  assumes "set (dict_keys its) \<subseteq> set (dict_keys (restock d))"
  shows "traverse (\<lambda>(car, level). and_then (dict_getitem (restock d) car)
                        (\<lambda>r. Inr (real_of_int level + r))) its
         = Inr (map (\<lambda>(c, l). of_int l + dict_get (restock d) c 0) its)"
proof (rule traverse_Inr_map)
  fix x assume "x \<in> set its"
  then have "fst x \<in> set (dict_keys (restock d))"
    using assms by (auto simp: dict_keys_def)
  then obtain r where "map_of (restock d) (fst x) = Some r"
    using in_keys_map_of by blast
  then show "(case x of (car, level) \<Rightarrow> and_then (dict_getitem (restock d) car)
                        (\<lambda>r. Inr (real_of_int level + r)))
        = Inr (case x of (c, l) \<Rightarrow> of_int l + dict_get (restock d) c 0)"
    by (cases x) (simp add: and_then_def dict_getitem_def dict_get_def)
qed

lemma is_valid_decision_state: "snd (is_valid_decision m d) = m"
  by (simp add: is_valid_decision_def Let_def split: sum.splits)

lemma is_valid_decision_covered:
  assumes "set (dict_keys (inventory_level (state m))) \<subseteq> set (dict_keys (restock d))"
  shows "is_valid_decision m d =
     (if (\<exists>v \<in> set (dict_values (restock d)). v < 0)
         \<or> of_int (max_inventory m) < post_restock_total m d
      then Inl ValueError else Inr True, m)"
  unfolding is_valid_decision_def restock_terms_covered[OF assms]
  by (auto simp: Let_def post_restock_total_def list_ex_iff)

text \<open>
  Claim C3. For a decision whose restock mapping has an entry for every tracked car,
  \<open>is_valid_decision\<close> raises exactly when some restock value is negative or the total
  post-restock inventory exceeds \<open>max_inventory\<close>; when it does not raise it returns
  \<open>True\<close>; and in both cases the model, with its State, is the one it was called on.
\<close>

theorem is_valid_decision_iff:
  assumes "set (dict_keys (inventory_level (state m))) \<subseteq> set (dict_keys (restock d))"
  shows "((\<exists>err. fst (is_valid_decision m d) = Inl err) \<longleftrightarrow>
            ((\<exists>v \<in> set (dict_values (restock d)). v < 0)
             \<or> of_int (max_inventory m) < post_restock_total m d))
       \<and> ((\<forall>err. fst (is_valid_decision m d) \<noteq> Inl err) \<longrightarrow>
            fst (is_valid_decision m d) = Inr True)
       \<and> snd (is_valid_decision m d) = m"
  unfolding is_valid_decision_covered[OF assms] by auto

theorem is_valid_decision_iff_witness:
  "fst (is_valid_decision ex_model ex_decision) = Inr True
   \<and> snd (is_valid_decision ex_model ex_decision) = ex_model"
proof -
  have cover: "set (dict_keys (inventory_level (state ex_model)))
               \<subseteq> set (dict_keys (restock ex_decision))"
    by (simp add: ex_defs dict_keys_def)
  have ok: "\<not> ((\<exists>v \<in> set (dict_values (restock ex_decision)). v < 0)
             \<or> of_int (max_inventory ex_model) < post_restock_total ex_model ex_decision)"
    by (simp add: ex_defs dict_values_def post_restock_total_def dict_get_def)
  from is_valid_decision_iff[OF cover] ok show ?thesis by blast
qed

lemma is_valid_decision_True:
  assumes "fst (is_valid_decision m d) = Inr True"
  shows "set (dict_keys (inventory_level (state m))) \<subseteq> set (dict_keys (restock d))"
    and "\<forall>v \<in> set (dict_values (restock d)). 0 \<le> v"
    and "post_restock_total m d \<le> of_int (max_inventory m)"
proof -
  let ?f = "\<lambda>(car, level). and_then (dict_getitem (restock d) car)
                        (\<lambda>r. Inr (real_of_int level + r))"
  from assms obtain terms where t: "traverse ?f (inventory_level (state m)) = Inr terms"
    by (cases "traverse ?f (inventory_level (state m))")
       (auto simp: is_valid_decision_def)
  have "c \<in> set (dict_keys (restock d))" if "c \<in> set (dict_keys (inventory_level (state m)))" for c
  proof -
    from that obtain l where "(c, l) \<in> set (inventory_level (state m))"
      by (auto simp: dict_keys_def)
    moreover have "\<forall>x \<in> set (inventory_level (state m)). \<exists>y. ?f x = Inr y"
      using traverse_Inr_each[OF t] by blast
    ultimately obtain y where "?f (c, l) = Inr y" by blast
    then obtain r where "map_of (restock d) c = Some r"
      by (auto simp: and_then_def dict_getitem_def split: option.splits)
    then show ?thesis
      by (auto simp: dict_keys_def dest!: map_of_SomeD intro: rev_image_eqI)
  qed
  then show cov: "set (dict_keys (inventory_level (state m))) \<subseteq> set (dict_keys (restock d))"
    by blast
  from assms show "\<forall>v \<in> set (dict_values (restock d)). 0 \<le> v"
    unfolding is_valid_decision_covered[OF cov] by (auto split: if_splits simp: not_less)
  from assms show "post_restock_total m d \<le> of_int (max_inventory m)"
    unfolding is_valid_decision_covered[OF cov] by (auto split: if_splits simp: not_less)
qed

text \<open>
  Claim C4. From a State with non-negative inventory counts, for a decision that
  \<open>is_valid_decision\<close> accepts and exogenous information with non-negative demand, the
  inventory of the State that \<open>transition_fn\<close> produces sums to at most
  \<open>max_inventory\<close>.
\<close>

theorem transition_fn_capacity:
  assumes dist: "distinct (dict_keys (inventory_level (state m)))"
      and inv: "\<forall>l \<in> set (dict_values (inventory_level (state m))). 0 \<le> l"
      and valid: "fst (is_valid_decision m d) = Inr True"
      and dem: "\<forall>v \<in> set (dict_values (exog_demand e)). 0 \<le> v"
      and tr: "transition_fn m d e = Inr r"
  shows "sum_list (dict_values (inventory_level (new_state r))) \<le> max_inventory m"
proof -
  note v = is_valid_decision_True[OF valid]
  let ?new = "\<lambda>(c, l). max 0 (l + py_int (dict_get (restock d) c 0)
                              - min (py_round (dict_get (exog_demand e) c 0)) l)"
  let ?post = "\<lambda>(c, l). real_of_int l + dict_get (restock d) c 0"
  have vals: "dict_values (inventory_level (new_state r)) = map ?new (inventory_level (state m))"
    unfolding transition_fn_inventory[OF dist tr] dict_values_def by (simp add: case_prod_unfold)
  have each: "real_of_int (?new x) \<le> ?post x" if "x \<in> set (inventory_level (state m))" for x
  proof -
    obtain c l where x: "x = (c, l)" by (cases x)
    from that inv x have l: "0 \<le> l" by (force simp: dict_values_def)
    have r: "0 \<le> dict_get (restock d) c 0" using v(2) by (rule dict_get_nonneg)
    have s: "0 \<le> py_round (dict_get (exog_demand e) c 0)"
      using dem by (intro py_round_nonneg dict_get_nonneg)
    from py_int_le[OF r] l s show ?thesis unfolding x by (auto simp: max_def min_def)
  qed
  have "real_of_int (sum_list (map ?new (inventory_level (state m))))
        = sum_list (map (\<lambda>x. real_of_int (?new x)) (inventory_level (state m)))"
    by (rule of_int_sum_list_map)
  also have "\<dots> \<le> sum_list (map ?post (inventory_level (state m)))"
    by (rule sum_list_mono) (rule each)
  also have "\<dots> = post_restock_total m d" by (simp add: post_restock_total_def)
  also have "\<dots> \<le> of_int (max_inventory m)" by (rule v(3))
  finally show ?thesis unfolding vals by simp
qed

theorem transition_fn_capacity_witness:
  "sum_list (dict_values (inventory_level (new_state
      (projr (transition_fn ex_model ex_decision ex_exog))))) \<le> max_inventory ex_model"
proof -
  have dist: "distinct (dict_keys (inventory_level (state ex_model)))"
    by (simp add: ex_defs dict_keys_def)
  have inv: "\<forall>l \<in> set (dict_values (inventory_level (state ex_model))). 0 \<le> l"
    by (simp add: ex_defs dict_values_def)
  have valid: "fst (is_valid_decision ex_model ex_decision) = Inr True"
    by (simp add: is_valid_decision_def ex_defs dict_getitem_def and_then_def dict_values_def)
  have dem: "\<forall>v \<in> set (dict_values (exog_demand ex_exog)). 0 \<le> v"
    by (simp add: ex_defs dict_values_def)
  have tr: "transition_fn ex_model ex_decision ex_exog
            = Inr (projr (transition_fn ex_model ex_decision ex_exog))"
    by (simp add: ex_transition)
  show ?thesis by (rule transition_fn_capacity[OF dist inv valid dem tr])
qed

section \<open>Exogenous information\<close>

lemma demand_comprehension_result:
  "demand_comprehension s ks g = Inr (ds, g') \<Longrightarrow>
     map fst ds = ks \<and> (\<forall>v \<in> snd ` set ds. 0 \<le> v)"
proof (induction ks arbitrary: g ds g')
  case Nil
  then show ?case by simp
next
  case (Cons k ks)
  from Cons.prems obtain f x g1 ds1 where
    rec: "demand_comprehension s ks g1 = Inr (ds1, g')" and ds: "ds = (k, max 0 x) # ds1"
    by (auto split: sum.splits prod.splits)
  from Cons.IH[OF rec] show ?case unfolding ds by simp
qed

lemma dict_set_keys: "fst ` set (dict_set d k v) = insert k (fst ` set d)"
  by (induction d k v rule: dict_set.induct) auto

lemma dict_set_values:
  "\<forall>x \<in> snd ` set d. P x \<Longrightarrow> P v \<Longrightarrow> \<forall>x \<in> snd ` set (dict_set d k v). P x"
  by (induction d k v rule: dict_set.induct) auto

lemma exog_loop_demand:
  assumes "exog_loop s tr cars (dem, cps, nmt, g) = Inr (dem', cps', nmt', g')"
      and "set cars \<subseteq> set (dict_keys (inventory_level s))"
      and "fst ` set dem \<subseteq> set (dict_keys (inventory_level s))"
      and "\<forall>v \<in> snd ` set dem. 0 \<le> v"
  shows "set cars \<union> fst ` set dem \<subseteq> fst ` set dem'
         \<and> (\<forall>v \<in> snd ` set dem'. 0 \<le> v)"
  using assms
proof (induction cars arbitrary: dem cps nmt g)
  case Nil
  then show ?case by simp
next
  case (Cons car rest)
  show ?case
  proof (cases "filter (\<lambda>r. Model r = car) tr")
    case Nil
    obtain x g1 where n: "normal g 0 5 = (x, g1)" by (cases "normal g 0 5")
    from Cons.prems(1) Nil n obtain cp where
      cp: "dict_getitem (competitor_price s) car = Inr cp"
      and rec: "exog_loop s tr rest
                  (dict_set dem car (max 0 (dict_get (demand_forecast s) car 0 + x)),
                   dict_set cps car cp, dict_set nmt car ''stable'', g1)
                = Inr (dem', cps', nmt', g')"
      by (auto simp: Let_def split: sum.splits)
    let ?dem1 = "dict_set dem car (max 0 (dict_get (demand_forecast s) car 0 + x))"
    have k: "fst ` set ?dem1 \<subseteq> set (dict_keys (inventory_level s))"
      using Cons.prems(2,3) by (simp add: dict_set_keys)
    have v: "\<forall>v \<in> snd ` set ?dem1. 0 \<le> v"
      by (rule dict_set_values[OF Cons.prems(4)]) simp
    have r: "set rest \<subseteq> set (dict_keys (inventory_level s))"
      using Cons.prems(2) by simp
    have "set rest \<union> fst ` set ?dem1 \<subseteq> fst ` set dem' \<and> (\<forall>v \<in> snd ` set dem'. 0 \<le> v)"
      by (rule Cons.IH[OF rec r k v])
    then show ?thesis by (auto simp: dict_set_keys)
  next
    case (Cons row rows)
    obtain rv g1 where n: "normal g 0 (5 / 100) = (rv, g1)" by (cases "normal g 0 (5 / 100)")
    from Cons.prems(1) Cons n obtain dem1 g2 cp where
      dc: "demand_comprehension s (dict_keys (inventory_level s)) g1 = Inr (dem1, g2)"
      and rec: "exog_loop s tr rest
                  (dem1, dict_set cps car (max 0 (cp + Price_Trend row - Competitor_Activity row)),
                   dict_set nmt car (Season row), g2)
                = Inr (dem', cps', nmt', g')"
      by (auto split: sum.splits)
    from demand_comprehension_result[OF dc]
    have k: "map fst dem1 = dict_keys (inventory_level s)"
      and v: "\<forall>v \<in> snd ` set dem1. 0 \<le> v" by simp_all
    have k': "fst ` set dem1 = set (dict_keys (inventory_level s))"
      using k by (metis set_map)
    have r: "set rest \<subseteq> set (dict_keys (inventory_level s))"
      using Cons.prems(2) by simp
    have "set rest \<union> fst ` set dem1 \<subseteq> fst ` set dem' \<and> (\<forall>v \<in> snd ` set dem'. 0 \<le> v)"
      by (rule Cons.IH[OF rec r _ v]) (simp add: k')
    with k' Cons.prems(2,3) show ?thesis by auto
  qed
qed

lemma exog_loop_fallback:
  assumes "exog_loop s tr cars (dem, cps, nmt, g) = Inr (dem', cps', nmt', g')"
      and "filter (\<lambda>r. Model r = c) tr = []"
  shows "map_of nmt' c = (if c \<in> set cars then Some ''stable'' else map_of nmt c)
       \<and> map_of cps' c = (if c \<in> set cars then map_of (competitor_price s) c else map_of cps c)"
  using assms(1)
proof (induction cars arbitrary: dem cps nmt g)
  case Nil
  then show ?case by simp
next
  case (Cons car rest)
  show ?case
  proof (cases "filter (\<lambda>r. Model r = car) tr")
    case Nil
    obtain x g1 where n: "normal g 0 5 = (x, g1)" by (cases "normal g 0 5")
    from Cons.prems(1) Nil n obtain cp where
      cp: "dict_getitem (competitor_price s) car = Inr cp"
      and rec: "exog_loop s tr rest
                  (dict_set dem car (max 0 (dict_get (demand_forecast s) car 0 + x)),
                   dict_set cps car cp, dict_set nmt car ''stable'', g1)
                = Inr (dem', cps', nmt', g')"
      by (auto simp: Let_def split: sum.splits)
    from cp have cp': "map_of (competitor_price s) car = Some cp"
      by (auto simp: dict_getitem_def split: option.splits)
    from Cons.IH[OF rec] cp' show ?thesis
      by (auto simp: map_of_dict_set)
  next
    case (Cons row rows)
    then have ne: "car \<noteq> c" using assms(2) by auto
    obtain rv g1 where n: "normal g 0 (5 / 100) = (rv, g1)" by (cases "normal g 0 (5 / 100)")
    from Cons.prems(1) Cons n obtain dem1 g2 cp where
      rec: "exog_loop s tr rest
                  (dem1, dict_set cps car (max 0 (cp + Price_Trend row - Competitor_Activity row)),
                   dict_set nmt car (Season row), g2)
                = Inr (dem', cps', nmt', g')"
      by (auto split: sum.splits)
    from Cons.IH[OF rec] ne show ?thesis
      by (auto simp: map_of_dict_set)
  qed
qed

lemma exog_info_fn_Inr:
  assumes "exog_info_fn m = Inr (e, m')"
  shows "\<exists>df dem cps nmt g.
           market_trends_df m = Some df
         \<and> exog_loop (state m) (filter (\<lambda>r. Month r = current_month_of (time_t m)) df)
               (dict_keys (inventory_level (state m))) ([], [], [], rng m)
             = Inr (dem, cps, nmt, g)
         \<and> e = \<lparr> exog_demand = cap_demand (state m) dem, exog_competitor_prices = cps,
                  exog_market_trends = nmt \<rparr>
         \<and> m' = m\<lparr>rng := g\<rparr>"
  using assms
  by (auto simp: exog_info_fn_def Let_def split: option.splits sum.splits)

text \<open>
  Claim C9. Whenever \<open>exog_info_fn\<close> returns, every tracked car \<open>c\<close> whose current
  forecast \<open>f\<close> is non-negative has a demand entry \<open>dv\<close> with \<open>0 \<le> dv \<le> 2 * f\<close>,
  whatever the random stream draws.
\<close>

theorem exog_info_fn_demand_bounds:
  assumes run: "exog_info_fn m = Inr (e, m')"
      and c: "c \<in> set (dict_keys (inventory_level (state m)))"
      and f: "map_of (demand_forecast (state m)) c = Some f"
      and nn: "0 \<le> f"
  shows "\<exists>dv. map_of (exog_demand e) c = Some dv \<and> 0 \<le> dv \<and> dv \<le> 2 * f"
proof -
  from exog_info_fn_Inr[OF run] obtain df dem cps nmt g where
    loop: "exog_loop (state m) (filter (\<lambda>r. Month r = current_month_of (time_t m)) df)
               (dict_keys (inventory_level (state m))) ([], [], [], rng m)
             = Inr (dem, cps, nmt, g)"
    and e: "e = \<lparr> exog_demand = cap_demand (state m) dem, exog_competitor_prices = cps,
                  exog_market_trends = nmt \<rparr>"
    by blast
  from exog_loop_demand[OF loop] c
  have ck: "c \<in> fst ` set dem" and pos: "\<forall>v \<in> snd ` set dem. 0 \<le> v"
    by auto
  from ck obtain dv where dv: "map_of dem c = Some dv"
    using in_keys_map_of[of c dem] by (auto simp: dict_keys_def)
  then have "dv \<in> snd ` set dem"
    by (force dest!: map_of_SomeD)
  with pos have dv0: "0 \<le> dv" by blast
  have md: "dict_get (map (\<lambda>(car, f). (car, 2 * f)) (demand_forecast (state m))) c dv = 2 * f"
    by (simp add: dict_get_def map_of_map_items f)
  have "map_of (cap_demand (state m) dem) c
        = Some (min dv (dict_get (map (\<lambda>(car, f). (car, 2 * f)) (demand_forecast (state m))) c dv))"
    unfolding cap_demand_def Let_def map_of_map_items by (simp add: dv)
  then have cap: "map_of (cap_demand (state m) dem) c = Some (min dv (2 * f))"
    unfolding md .
  show ?thesis using cap dv0 nn unfolding e by auto
qed

text \<open>
  Claim C10. With no trend table (\<open>market_trends_df\<close> is \<open>None\<close>) every call of
  \<open>exog_info_fn\<close> raises, for every State and time index. With a table that has no row
  for the current month and car \<open>c\<close>, a call that returns gives \<open>c\<close> the trend
  \<open>"stable"\<close> and its unchanged competitor price: the fallback is per missing row.
\<close>

theorem exog_info_fn_trend_table:
  "exog_info_fn (m\<lparr>market_trends_df := None\<rparr>) = Inl TypeError
   \<and> (market_trends_df m = Some df
        \<longrightarrow> c \<in> set (dict_keys (inventory_level (state m)))
        \<longrightarrow> (\<forall>r \<in> set df. \<not> (Month r = current_month_of (time_t m) \<and> Model r = c))
        \<longrightarrow> exog_info_fn m = Inr (e, m')
        \<longrightarrow> map_of (exog_market_trends e) c = Some ''stable''
            \<and> map_of (exog_competitor_prices e) c = map_of (competitor_price (state m)) c)"
proof (intro conjI impI)
  show "exog_info_fn (m\<lparr>market_trends_df := None\<rparr>) = Inl TypeError"
    by (simp add: exog_info_fn_def)
next
  assume df: "market_trends_df m = Some df"
    and c: "c \<in> set (dict_keys (inventory_level (state m)))"
    and none: "\<forall>r \<in> set df. \<not> (Month r = current_month_of (time_t m) \<and> Model r = c)"
    and run: "exog_info_fn m = Inr (e, m')"
  from exog_info_fn_Inr[OF run] df obtain dem cps nmt g where
    loop: "exog_loop (state m) (filter (\<lambda>r. Month r = current_month_of (time_t m)) df)
               (dict_keys (inventory_level (state m))) ([], [], [], rng m)
             = Inr (dem, cps, nmt, g)"
    and e: "e = \<lparr> exog_demand = cap_demand (state m) dem, exog_competitor_prices = cps,
                  exog_market_trends = nmt \<rparr>"
    by auto
  have empty: "filter (\<lambda>r. Model r = c) (filter (\<lambda>r. Month r = current_month_of (time_t m)) df) = []"
    using none by (auto simp: filter_empty_conv)
  from exog_loop_fallback[OF loop empty] c
  show "map_of (exog_market_trends e) c = Some ''stable''"
    and "map_of (exog_competitor_prices e) c = map_of (competitor_price (state m)) c"
    unfolding e by simp_all
qed

lemma ex_exog_info_fn:
  "exog_info_fn ex_model =
     Inr (\<lparr> exog_demand = [(''A'', 10)], exog_competitor_prices = [(''A'', 150)],
            exog_market_trends = [(''A'', ''stable'')] \<rparr>,
          ex_model\<lparr>rng := \<lparr> draws = (\<lambda>n mu sigma. mu), cursor = 1 \<rparr>\<rparr>)"
  by (simp add: exog_info_fn_def ex_defs Let_def dict_keys_def normal_def dict_get_def
        dict_getitem_def cap_demand_def)

theorem exog_info_fn_demand_bounds_witness:
  "\<exists>dv. map_of (exog_demand (fst (projr (exog_info_fn ex_model)))) ''A'' = Some dv
        \<and> 0 \<le> dv \<and> dv \<le> 2 * 10"
proof -
  have run: "exog_info_fn ex_model
             = Inr (fst (projr (exog_info_fn ex_model)), snd (projr (exog_info_fn ex_model)))"
    by (simp add: ex_exog_info_fn)
  have c: "''A'' \<in> set (dict_keys (inventory_level (state ex_model)))"
    by (simp add: ex_defs dict_keys_def)
  have f: "map_of (demand_forecast (state ex_model)) ''A'' = Some 10"
    by (simp add: ex_defs)
  show ?thesis by (rule exog_info_fn_demand_bounds[OF run c f]) simp
qed

theorem exog_info_fn_trend_table_witness:
  "exog_info_fn (ex_model\<lparr>market_trends_df := None\<rparr>) = Inl TypeError
   \<and> map_of (exog_market_trends (fst (projr (exog_info_fn ex_model)))) ''A'' = Some ''stable''
   \<and> map_of (exog_competitor_prices (fst (projr (exog_info_fn ex_model)))) ''A'' = Some 150"
proof -
  have df: "market_trends_df ex_model = Some []" by (simp add: ex_defs)
  have c: "''A'' \<in> set (dict_keys (inventory_level (state ex_model)))"
    by (simp add: ex_defs dict_keys_def)
  have run: "exog_info_fn ex_model
             = Inr (fst (projr (exog_info_fn ex_model)), snd (projr (exog_info_fn ex_model)))"
    by (simp add: ex_exog_info_fn)
  have cp: "map_of (competitor_price (state ex_model)) ''A'' = Some 150"
    by (simp add: ex_defs)
  from exog_info_fn_trend_table[of ex_model "[]" "''A''"
         "fst (projr (exog_info_fn ex_model))" "snd (projr (exog_info_fn ex_model))"]
       df c run cp
  show ?thesis by simp
qed

section \<open>The threshold policy\<close>






text \<open>
  Claim C6: no policy variant returns a negative restock, price or discount. The
  threshold policy does, at a State whose competitor price (30) is below its markdown
  of 50: it returns the price \<open>- 20\<close> for \<open>Car A\<close>, where the forecast-adaptive
  variant floors the price at zero.
\<close>

theorem get_decision_negative_price:
  "get_decision ex_model ex_cheap_state 0 30 =
     Inr \<lparr> restock = [(''Car A'', 12)], price = [(''Car A'', - 20)],
           discount = [(''Car A'', 0)] \<rparr>"
  by (simp add: get_decision_def ex_defs ex_threshold_state_def ex_cheap_state_def Let_def
        and_then_def adjusted_theta_min_def adjusted_theta_max_def dict_eq_str_def
        seasonal_theta_min_def seasonal_theta_max_def is_winter_def dict_values_def
        dict_keys_def dict_getitem_def threshold_price_def threshold_discount_def)

section \<open>The forecast-adaptive policy\<close>

lemma traverse_Inr_eq_map:
  assumes "traverse f xs = Inr ys"
      and "\<And>x y. x \<in> set xs \<Longrightarrow> f x = Inr y \<Longrightarrow> y = g x"
  shows "ys = map g xs"
  using assms
proof (induction xs arbitrary: ys)
  case Nil
  then show ?case by simp
next
  case (Cons x xs)
  from Cons.prems(1) obtain y ys' where y: "f x = Inr y" and t: "traverse f xs = Inr ys'"
    and ys: "ys = y # ys'"
    by (auto split: sum.splits)
  have "ys' = map g xs" by (rule Cons.IH[OF t]) (simp add: Cons.prems(2))
  moreover have "y = g x" by (rule Cons.prems(2)[OF _ y]) simp
  ultimately show ?case using ys by simp
qed

lemma order_up_to_loop_law:
  assumes "order_up_to_loop m tmax e its rs = Inr out"
      and "distinct (map fst its)"
      and "fst ` set its \<inter> fst ` set rs = {}"
  shows "out = rs @ map (\<lambda>(c, l). (c, order_up_to_quantity m tmax e c l)) its"
  using assms
proof (induction its arbitrary: rs)
  case Nil
  then show ?case by simp
next
  case (Cons p its)
  obtain car level where p: "p = (car, level)" by (cases p)
  have fresh: "car \<notin> set (map fst rs)" using Cons.prems(3) p by auto
  from Cons.prems(1) p obtain v dem tx where
    v: "map_of (variance_demand m) car = Some v" and v0: "\<not> v < 0"
    and dem: "map_of (exog_demand e) car = Some dem"
    and tx: "map_of tmax car = Some tx"
    by (auto simp: dict_getitem_def safety_buffer_of_def Let_def
             split: option.splits sum.splits if_splits)
  have q: "max 0 (min (of_int (tx - level))
             (dict_get trend_adjustments (dict_get (market_trends (state m)) car ''stable'') 1
              * (dem + of_int (py_int (sqrt v)))))
           = order_up_to_quantity m tmax e car level"
    by (simp add: order_up_to_quantity_def dict_get_Some[OF v] dict_get_Some[OF dem]
          dict_get_Some[OF tx])
  from Cons.prems(1) p v v0 dem tx
  have rec: "order_up_to_loop m tmax e its
               (rs @ [(car, order_up_to_quantity m tmax e car level)]) = Inr out"
    by (simp add: dict_getitem_def safety_buffer_of_def Let_def dict_set_fresh[OF fresh]
          q[symmetric])
  have "out = (rs @ [(car, order_up_to_quantity m tmax e car level)])
              @ map (\<lambda>(c, l). (c, order_up_to_quantity m tmax e c l)) its"
    by (rule Cons.IH[OF rec]) (use Cons.prems(2,3) p in auto)
  then show ?case by (simp add: p)
qed

lemma basic_order_up_to_policy_result:
  assumes run: "basic_order_up_to_policy self tmin tmax e = Inr d"
      and dist: "distinct (dict_keys (inventory_level (state (policy_model self))))"
  shows "restock d = map (\<lambda>(c, l). (c, order_up_to_quantity (policy_model self) tmax e c l))
                       (inventory_level (state (policy_model self)))"
    and "price d = map (\<lambda>c. (c, max 0 (dict_get (competitor_price (state (policy_model self))) c 0 - 50)))
                     (dict_keys (inventory_level (state (policy_model self))))"
    and "discount d = map (\<lambda>c. (c, 0)) (dict_keys (inventory_level (state (policy_model self))))"
proof -
  let ?m = "policy_model self"
  from run obtain rs pr where
    loop: "order_up_to_loop ?m tmax e (inventory_level (state ?m)) [] = Inr rs"
    and tr: "traverse (order_up_to_price (state ?m)) (dict_keys (inventory_level (state ?m))) = Inr pr"
    and d: "d = \<lparr> restock = rs, price = pr,
                  discount = map (\<lambda>car. (car, 0)) (dict_keys (inventory_level (state ?m))) \<rparr>"
    by (auto simp: basic_order_up_to_policy_def Let_def and_then_def split: sum.splits)
  from order_up_to_loop_law[OF loop] dist
  show "restock d = map (\<lambda>(c, l). (c, order_up_to_quantity ?m tmax e c l))
                       (inventory_level (state ?m))"
    unfolding d by (simp add: dict_keys_def)
  have "pr = map (\<lambda>c. (c, max 0 (dict_get (competitor_price (state ?m)) c 0 - 50)))
                     (dict_keys (inventory_level (state ?m)))"
    by (rule traverse_Inr_eq_map[OF tr])
       (auto simp: order_up_to_price_def and_then_def dict_getitem_def dict_get_def
             split: option.splits)
  then show "price d = map (\<lambda>c. (c, max 0 (dict_get (competitor_price (state ?m)) c 0 - 50)))
                     (dict_keys (inventory_level (state ?m)))"
    unfolding d by simp
  show "discount d = map (\<lambda>c. (c, 0)) (dict_keys (inventory_level (state ?m)))"
    unfolding d by simp
qed

text \<open>
  Claim C8, as amended. Whenever \<open>basic_order_up_to_policy\<close> returns, every tracked car
  \<open>c\<close> at inventory \<open>level\<close> has
  \<open>restock[c] = max(0, min(theta_max[c] - level, trend_factor * (demand[c] + buffer)))\<close>
  with \<open>buffer = int(variance_demand[c] ** 0.5)\<close> and \<open>demand\<close> the exogenous demand
  passed to the policy, \<open>price[c] = max(0, competitor_price[c] - 50)\<close> and
  \<open>discount[c] = 0\<close>.
\<close>

theorem basic_order_up_to_policy_per_car:
  assumes run: "basic_order_up_to_policy self tmin tmax e = Inr d"
      and dist: "distinct (dict_keys (inventory_level (state (policy_model self))))"
      and c: "map_of (inventory_level (state (policy_model self))) c = Some level"
  shows "map_of (restock d) c =
           Some (max 0 (min (of_int (dict_get tmax c 0 - level))
                   (dict_get trend_adjustments
                      (dict_get (market_trends (state (policy_model self))) c ''stable'') 1
                    * (dict_get (exog_demand e) c 0
                       + of_int (py_int (sqrt (dict_get (variance_demand (policy_model self)) c 0)))))))
       \<and> map_of (price d) c =
           Some (max 0 (dict_get (competitor_price (state (policy_model self))) c 0 - 50))
       \<and> map_of (discount d) c = Some 0"
proof -
  have ck: "c \<in> set (dict_keys (inventory_level (state (policy_model self))))"
    using c by (force simp: dict_keys_def dest!: map_of_SomeD)
  show ?thesis
    unfolding basic_order_up_to_policy_result[OF run dist]
    by (simp add: map_of_map_items map_of_map_keys c ck order_up_to_quantity_def)
qed

lemma ex_basic_policy:
  "basic_order_up_to_policy ex_policy [] [(''A'', 12)] ex_exog =
     Inr \<lparr> restock = [(''A'', 2)], price = [(''A'', 100)], discount = [(''A'', 0)] \<rparr>"
  by (simp add: basic_order_up_to_policy_def ex_defs ex_policy_defs Let_def and_then_def
        dict_get_def dict_getitem_def safety_buffer_of_def py_int_def trend_adjustments_def
        order_up_to_price_def dict_keys_def)

theorem basic_order_up_to_policy_per_car_witness:
  "map_of (restock (projr (basic_order_up_to_policy ex_policy [] [(''A'', 12)] ex_exog))) ''A''
     = Some 2
   \<and> map_of (price (projr (basic_order_up_to_policy ex_policy [] [(''A'', 12)] ex_exog))) ''A''
     = Some 100
   \<and> map_of (discount (projr (basic_order_up_to_policy ex_policy [] [(''A'', 12)] ex_exog))) ''A''
     = Some 0"
proof -
  have run: "basic_order_up_to_policy ex_policy [] [(''A'', 12)] ex_exog
             = Inr (projr (basic_order_up_to_policy ex_policy [] [(''A'', 12)] ex_exog))"
    by (simp add: ex_basic_policy)
  have dist: "distinct (dict_keys (inventory_level (state (policy_model ex_policy))))"
    by (simp add: ex_defs ex_policy_defs dict_keys_def)
  have c: "map_of (inventory_level (state (policy_model ex_policy))) ''A'' = Some 10"
    by (simp add: ex_defs ex_policy_defs)
  have q: "max 0 (min (real_of_int (dict_get [(''A'', 12)] ''A'' 0 - 10))
                   (dict_get trend_adjustments
                      (dict_get (market_trends (state (policy_model ex_policy))) ''A'' ''stable'') 1
                    * (dict_get (exog_demand ex_exog) ''A'' 0
                       + of_int (py_int (sqrt (dict_get (variance_demand (policy_model ex_policy)) ''A'' 0))))))
           = 2"
    by (simp add: ex_defs ex_policy_defs dict_get_def trend_adjustments_def py_int_def)
  have p: "max 0 (dict_get (competitor_price (state (policy_model ex_policy))) ''A'' 0 - 50) = 100"
    by (simp add: ex_defs ex_policy_defs dict_get_def)
  from basic_order_up_to_policy_per_car[OF run dist c]
  show ?thesis unfolding q p by simp
qed

text \<open>
  Claim C8 as stated, with the price \<open>competitor_price - 50\<close>, fails below a competitor
  price of 50: at 30 the policy's price is 0, not \<open>- 20\<close>.
\<close>

theorem basic_order_up_to_policy_price_floor:
  "(case basic_order_up_to_policy ex_cheap_policy [] [(''A'', 12)] ex_exog of
      Inl err \<Rightarrow> False
    | Inr d \<Rightarrow>
        map_of (competitor_price (state (policy_model ex_cheap_policy))) ''A'' = Some 30
        \<and> map_of (price d) ''A'' = Some 0
        \<and> (0::real) \<noteq> 30 - 50)"
  by (simp add: basic_order_up_to_policy_def ex_defs ex_policy_defs Let_def and_then_def
        dict_get_def dict_getitem_def safety_buffer_of_def py_int_def trend_adjustments_def
        order_up_to_price_def dict_keys_def)

text \<open>
  The forecast-adaptive variant never returns a negative quantity and covers the fleet.
\<close>

lemma basic_order_up_to_policy_nonneg:
  assumes run: "basic_order_up_to_policy self tmin tmax e = Inr d"
      and dist: "distinct (dict_keys (inventory_level (state (policy_model self))))"
      and c: "c \<in> set (dict_keys (inventory_level (state (policy_model self))))"
  shows "\<exists>r p. map_of (restock d) c = Some r \<and> 0 \<le> r
             \<and> map_of (price d) c = Some p \<and> 0 \<le> p
             \<and> map_of (discount d) c = Some 0"
proof -
  from in_keys_map_of[OF c] obtain level where
    l: "map_of (inventory_level (state (policy_model self))) c = Some level" by blast
  show ?thesis
    unfolding basic_order_up_to_policy_result[OF run dist]
    by (simp add: map_of_map_items map_of_map_keys l c order_up_to_quantity_def)
qed

section \<open>The runner of CarDealerPolicy\<close>

lemma run_policy_step_Inr:
  assumes "run_policy_step self pf tmin tmax i mc = Inr (mc', row)"
  shows "\<exists>e mc1 p.
           exog_info_fn mc = Inr (e, mc1)
         \<and> pf tmin tmax e = Inr (res_decision row)
         \<and> transition_fn mc1 (res_decision row) e = Inr (res_state_after row)
         \<and> objective_fn (mc1\<lparr>state := new_state (res_state_after row)\<rparr>) (res_decision row) e
             = Inr p
         \<and> mc' = mc1\<lparr>state := new_state (res_state_after row), objective := objective mc1 + p\<rparr>
         \<and> res_profit row = p
         \<and> res_state_before row = state mc1
         \<and> res_objective row = objective mc1 + p"
  using assms
  unfolding run_policy_step_def Let_def and_then_def
  by (auto split: sum.splits prod.splits)

lemma exog_info_fn_keeps:
  assumes "exog_info_fn m = Inr (e, m')"
  shows "state m' = state m" and "objective m' = objective m"
    and "max_inventory m' = max_inventory m"
  using assms
  by (auto simp: exog_info_fn_def Let_def split: option.splits sum.splits)

lemma py_lower_stable: "py_lower ''stable'' = ''stable''"
  by (simp add: py_lower_def lower_char_def)

lemma ex_sellout_policy:
  "basic_order_up_to_policy ex_policy [] [(''A'', 10)] ex_exog10 =
     Inr \<lparr> restock = [(''A'', 0)], price = [(''A'', 100)], discount = [(''A'', 0)] \<rparr>"
  by (simp add: basic_order_up_to_policy_def ex_defs ex_policy_defs Let_def and_then_def
        dict_get_def dict_getitem_def safety_buffer_of_def py_int_def trend_adjustments_def
        order_up_to_price_def dict_keys_def)

lemma ex_exog_info_fn10:
  "exog_info_fn ex_model =
     Inr (ex_exog10, ex_model\<lparr>rng := \<lparr> draws = (\<lambda>n mu sigma. mu), cursor = 1 \<rparr>\<rparr>)"
  by (simp add: ex_exog_info_fn ex_exog10_def)

lemma ex_sellout_transition:
  "transition_fn (ex_model\<lparr>rng := g\<rparr>)
     \<lparr> restock = [(''A'', 0)], price = [(''A'', 100)], discount = [(''A'', 0)] \<rparr> ex_exog10 =
   Inr \<lparr> new_state =
         \<lparr> inventory_level = [(''A'', 0)],
           holding_time = [(''A'', 0)],
           competitor_price = [(''A'', 150)],
           market_trends = [(''A'', ''stable'')],
           market_trends_lag1 = [(''A'', ''stable'')],
           market_trends_lag2 = [(''A'', ''stable'')],
           demand_forecast = [(''A'', 10)],
           trend_eta_params = trend_eta_params ex_state \<rparr>,
       cars_sold = [(''A'', 10)],
       cars_added = [(''A'', 0)] \<rparr>"
  by (simp add: transition_fn_def ex_defs ex_policy_defs Let_def dict_get_def dict_getitem_def
        and_then_def new_holding_time_of_def new_demand_forecast_of_def dict_keys_def
        py_round_def py_int_def)

lemma ex_sellout_objective_before:
  "objective_fn ex_model
     \<lparr> restock = [(''A'', 0)], price = [(''A'', 100)], discount = [(''A'', 0)] \<rparr> ex_exog10
   = Inr 1000"
  by (simp add: objective_fn_def revenue_of_def restocking_cost_of_def unsold_inventory_of_def
        seasonal_holding_cost_of_def ex_defs ex_policy_defs Let_def and_then_def
        dict_getitem_def dict_get_def py_int_def py_lower_stable)

lemma ex_sellout_step_returns:
  "\<not> isl (run_policy_step ex_policy (basic_order_up_to_policy ex_policy) [] [(''A'', 10)] 0 ex_model)"
  apply (simp add: run_policy_step_def ex_exog_info_fn10 and_then_def ex_sellout_policy Let_def
      ex_sellout_transition)
  apply (simp add: objective_fn_def revenue_of_def restocking_cost_of_def unsold_inventory_of_def
        seasonal_holding_cost_of_def flat_holding_cost_of_def ex_defs ex_policy_defs Let_def
        and_then_def dict_getitem_def dict_get_def py_int_def py_lower_stable)
  done

lemma ex_full_exog_info_fn:
  "exog_info_fn ex_full_model =
     Inr (ex_exog10, ex_full_model\<lparr>rng := \<lparr> draws = (\<lambda>n mu sigma. mu), cursor = 1 \<rparr>\<rparr>)"
  by (simp add: exog_info_fn_def ex_defs ex_policy_defs Let_def dict_keys_def normal_def
        dict_get_def dict_getitem_def cap_demand_def)

lemma ex_full_policy_decision:
  "basic_order_up_to_policy ex_full_policy [] [(''A'', 70)] ex_exog10 =
     Inr \<lparr> restock = [(''A'', 12)], price = [(''A'', 100)], discount = [(''A'', 0)] \<rparr>"
  by (simp add: basic_order_up_to_policy_def ex_defs ex_policy_defs Let_def and_then_def
        dict_get_def dict_getitem_def safety_buffer_of_def py_int_def trend_adjustments_def
        order_up_to_price_def dict_keys_def)

lemma ex_full_transition:
  "transition_fn (ex_full_model\<lparr>rng := g\<rparr>)
     \<lparr> restock = [(''A'', 12)], price = [(''A'', 100)], discount = [(''A'', 0)] \<rparr> ex_exog10 =
   Inr \<lparr> new_state =
         \<lparr> inventory_level = [(''A'', 51)],
           holding_time = [(''A'', 2)],
           competitor_price = [(''A'', 150)],
           market_trends = [(''A'', ''stable'')],
           market_trends_lag1 = [(''A'', ''rising'')],
           market_trends_lag2 = [(''A'', ''stable'')],
           demand_forecast = [(''A'', 10)],
           trend_eta_params = trend_eta_params ex_state \<rparr>,
       cars_sold = [(''A'', 10)],
       cars_added = [(''A'', 12)] \<rparr>"
  by (simp add: transition_fn_def ex_defs ex_policy_defs Let_def dict_get_def dict_getitem_def
        and_then_def new_holding_time_of_def new_demand_forecast_of_def dict_keys_def
        py_round_def py_int_def)


lemma ex_full_step_returns:
  "\<not> isl (run_policy_step ex_full_policy (basic_order_up_to_policy ex_full_policy) []
            [(''A'', 70)] 0 ex_full_model)"
  apply (simp add: run_policy_step_def ex_full_exog_info_fn and_then_def ex_full_policy_decision
      Let_def ex_full_transition)
  apply (simp add: objective_fn_def revenue_of_def restocking_cost_of_def unsold_inventory_of_def
        seasonal_holding_cost_of_def flat_holding_cost_of_def ex_defs ex_policy_defs Let_def
        and_then_def dict_getitem_def dict_get_def py_int_def py_lower_stable)
  done

text \<open>
  Claim C1, as amended. In a step of \<open>run_policy\<close> that completes, the step profit is
  \<open>objective_fn(decision, exog)\<close> evaluated after the model's state has been replaced by
  the transition's result, with the decision and the exogenous information that were
  passed to \<open>transition_fn\<close>; the transition itself read the state the step started from.
\<close>

theorem run_policy_step_objective_state:
  assumes "run_policy_step self pf tmin tmax i mc = Inr (mc', row)"
  shows "\<exists>e mc1.
           exog_info_fn mc = Inr (e, mc1)
         \<and> state mc1 = state mc
         \<and> transition_fn mc1 (res_decision row) e = Inr (res_state_after row)
         \<and> objective_fn (mc1\<lparr>state := new_state (res_state_after row)\<rparr>) (res_decision row) e
             = Inr (res_profit row)
         \<and> objective mc' = objective mc + res_profit row"
proof -
  from run_policy_step_Inr[OF assms] obtain e mc1 p where
    x: "exog_info_fn mc = Inr (e, mc1)"
    and tr: "transition_fn mc1 (res_decision row) e = Inr (res_state_after row)"
    and ob: "objective_fn (mc1\<lparr>state := new_state (res_state_after row)\<rparr>) (res_decision row) e
             = Inr p"
    and mc': "mc' = mc1\<lparr>state := new_state (res_state_after row), objective := objective mc1 + p\<rparr>"
    and p: "res_profit row = p"
    by blast
  from exog_info_fn_keeps[OF x] x tr ob mc' p show ?thesis by auto
qed

theorem run_policy_step_objective_state_witness:
  "\<exists>e mc1.
     exog_info_fn ex_model = Inr (e, mc1)
   \<and> state mc1 = state ex_model
   \<and> transition_fn mc1
        (res_decision (snd (projr (run_policy_step ex_policy (basic_order_up_to_policy ex_policy)
                                    [] [(''A'', 10)] 0 ex_model)))) e
       = Inr (res_state_after (snd (projr (run_policy_step ex_policy
                (basic_order_up_to_policy ex_policy) [] [(''A'', 10)] 0 ex_model))))
   \<and> objective_fn
        (mc1\<lparr>state := new_state (res_state_after (snd (projr (run_policy_step ex_policy
                (basic_order_up_to_policy ex_policy) [] [(''A'', 10)] 0 ex_model))))\<rparr>)
        (res_decision (snd (projr (run_policy_step ex_policy (basic_order_up_to_policy ex_policy)
                                    [] [(''A'', 10)] 0 ex_model)))) e
       = Inr (res_profit (snd (projr (run_policy_step ex_policy
                (basic_order_up_to_policy ex_policy) [] [(''A'', 10)] 0 ex_model))))
   \<and> objective (fst (projr (run_policy_step ex_policy (basic_order_up_to_policy ex_policy)
                              [] [(''A'', 10)] 0 ex_model)))
       = objective ex_model
         + res_profit (snd (projr (run_policy_step ex_policy
                (basic_order_up_to_policy ex_policy) [] [(''A'', 10)] 0 ex_model)))"
proof -
  let ?r = "run_policy_step ex_policy (basic_order_up_to_policy ex_policy) [] [(''A'', 10)] 0 ex_model"
  have run: "?r = Inr (fst (projr ?r), snd (projr ?r))"
    using ex_sellout_step_returns by (cases ?r) simp_all
  show ?thesis by (rule run_policy_step_objective_state[OF run])
qed

text \<open>
  Claim C1 as stated fails: when the ten cars in stock meet a demand of ten at price 100,
  the transition sells all ten, the step profit is 0, and \<open>objective_fn\<close> on the
  pre-transition State gives 1000.
\<close>

theorem run_policy_step_sellout:
  "(case run_policy_step ex_policy (basic_order_up_to_policy ex_policy) [] [(''A'', 10)] 0 ex_model of
      Inl err \<Rightarrow> False
    | Inr (mc', row) \<Rightarrow>
        res_state_before row = state ex_model
        \<and> map_of (cars_sold (res_state_after row)) ''A'' = Some 10
        \<and> map_of (price (res_decision row)) ''A'' = Some 100
        \<and> res_profit row = 0
        \<and> objective_fn ex_model (res_decision row) ex_exog10 = Inr 1000)
   \<and> exog_info_fn ex_model
       = Inr (ex_exog10, ex_model\<lparr>rng := \<lparr> draws = (\<lambda>n mu sigma. mu), cursor = 1 \<rparr>\<rparr>)"
  apply (rule conjI)
   apply (simp add: run_policy_step_def ex_exog_info_fn10 and_then_def ex_sellout_policy Let_def
      ex_sellout_transition ex_sellout_objective_before)
   apply (simp add: objective_fn_def revenue_of_def restocking_cost_of_def unsold_inventory_of_def
        seasonal_holding_cost_of_def flat_holding_cost_of_def ex_defs ex_policy_defs Let_def
        and_then_def dict_getitem_def dict_get_def py_int_def py_lower_stable)
  apply (rule ex_exog_info_fn10)
  done










section \<open>When the exogenous information is produced\<close>

text \<open>
  With a trend table, and competitor prices and forecasts for every tracked car,
  \<open>exog_info_fn\<close> returns.
\<close>

lemma dict_getitem_in_keys:
  "k \<in> set (dict_keys d) \<Longrightarrow> \<exists>v. dict_getitem d k = Inr v"
  using in_keys_map_of[of k d] by (auto simp: dict_getitem_def)

lemma demand_comprehension_total:
  "set ks \<subseteq> set (dict_keys (demand_forecast s)) \<Longrightarrow>
     \<exists>ds g'. demand_comprehension s ks g = Inr (ds, g')"
proof (induction ks arbitrary: g)
  case Nil
  then show ?case by simp
next
  case (Cons k ks)
  from Cons.prems obtain f where f: "dict_getitem (demand_forecast s) k = Inr f"
    using dict_getitem_in_keys[of k "demand_forecast s"] by auto
  obtain x g1 where n: "normal g f 10 = (x, g1)" by (cases "normal g f 10")
  from Cons.IH[of g1] Cons.prems obtain ds g' where
    "demand_comprehension s ks g1 = Inr (ds, g')" by auto
  with f n show ?case by simp
qed

lemma exog_loop_total:
  assumes "set cars \<subseteq> set (dict_keys (competitor_price s))"
      and "set (dict_keys (inventory_level s)) \<subseteq> set (dict_keys (demand_forecast s))"
  shows "\<exists>r. exog_loop s tr cars acc = Inr r"
  using assms(1)
proof (induction cars arbitrary: acc)
  case Nil
  show ?case using exog_loop.simps(1) by blast
next
  case (Cons car rest)
  obtain dem cps nmt g where acc: "acc = (dem, cps, nmt, g)"
    by (metis surj_pair)
  from Cons.prems obtain cp where cp: "dict_getitem (competitor_price s) car = Inr cp"
    using dict_getitem_in_keys[of car "competitor_price s"] by auto
  from Cons.prems have rest: "set rest \<subseteq> set (dict_keys (competitor_price s))" by simp
  show ?case
  proof (cases "filter (\<lambda>r. Model r = car) tr")
    case Nil
    obtain x g1 where n: "normal g 0 5 = (x, g1)" by (cases "normal g 0 5")
    from Cons.IH[OF rest] show ?thesis unfolding acc by (simp add: Nil n cp Let_def)
  next
    case (Cons row rows)
    obtain rv g1 where n: "normal g 0 (1 / 20) = (rv, g1)" by (cases "normal g 0 (1 / 20)")
    from demand_comprehension_total[OF assms(2)] obtain ds g2 where
      dc: "demand_comprehension s (dict_keys (inventory_level s)) g1 = Inr (ds, g2)" by blast
    from Cons.IH[OF rest] show ?thesis unfolding acc by (simp add: Cons n cp dc)
  qed
qed

lemma exog_info_fn_total:
  assumes "market_trends_df m = Some df"
      and "set (dict_keys (inventory_level (state m))) \<subseteq> set (dict_keys (competitor_price (state m)))"
      and "set (dict_keys (inventory_level (state m))) \<subseteq> set (dict_keys (demand_forecast (state m)))"
  shows "\<exists>e m'. exog_info_fn m = Inr (e, m')"
proof -
  from exog_loop_total[OF assms(2,3)] obtain r where
    "exog_loop (state m) (filter (\<lambda>r. Month r = current_month_of (time_t m)) df)
       (dict_keys (inventory_level (state m))) ([], [], [], rng m) = Inr r"
    by blast
  then show ?thesis
    by (cases r) (simp add: exog_info_fn_def assms(1) Let_def)
qed

section \<open>The restocking rule of policy_util\<close>

lemma basic_order_up_to_policy_util_loop_law:
  assumes "basic_order_up_to_policy_util_loop its tmax fc tfs var rs = Inr out"
      and "distinct (map fst its)"
      and "fst ` set its \<inter> fst ` set rs = {}"
  shows "out = rs @ map (\<lambda>(c, l). (c, util_quantity tmax fc tfs var c l)) its"
  using assms
proof (induction its arbitrary: rs)
  case Nil
  then show ?case by simp
next
  case (Cons p its)
  obtain car level where p: "p = (car, level)" by (cases p)
  have fresh: "car \<notin> set (map fst rs)" using Cons.prems(3) p by auto
  from Cons.prems(1) p obtain v tx tf f where
    v: "map_of var car = Some v" and v0: "\<not> v < 0"
    and tx: "map_of tmax car = Some tx"
    and tf: "map_of tfs car = Some tf"
    and f: "map_of fc car = Some f"
    by (auto simp: dict_getitem_def safety_buffer_of_def split: option.splits sum.splits if_splits)
  have q: "max 0 (min (of_int (tx - level)) (tf * (f + of_int (py_int (sqrt v)))))
           = util_quantity tmax fc tfs var car level"
    by (simp add: util_quantity_def dict_get_Some[OF v] dict_get_Some[OF tx]
          dict_get_Some[OF tf] dict_get_Some[OF f])
  from Cons.prems(1) p v v0 tx tf f
  have rec: "basic_order_up_to_policy_util_loop its tmax fc tfs var
               (rs @ [(car, util_quantity tmax fc tfs var car level)]) = Inr out"
    by (simp add: dict_getitem_def safety_buffer_of_def dict_set_fresh[OF fresh] q[symmetric])
  have "out = (rs @ [(car, util_quantity tmax fc tfs var car level)])
              @ map (\<lambda>(c, l). (c, util_quantity tmax fc tfs var c l)) its"
    by (rule Cons.IH[OF rec]) (use Cons.prems(2,3) p in auto)
  then show ?case by (simp add: p)
qed

lemma basic_order_up_to_policy_util_law:
  assumes "basic_order_up_to_policy_util inventory tmin tmax fc tfs var = Inr out"
      and "distinct (dict_keys inventory)"
  shows "out = map (\<lambda>(c, l). (c, util_quantity tmax fc tfs var c l)) inventory"
  using basic_order_up_to_policy_util_loop_law[of inventory tmax fc tfs var "[]" out] assms
  by (simp add: basic_order_up_to_policy_util_def dict_keys_def)

end
